theory Spec2Isabelle
  imports Complex_Main
begin

section \<open>StoryFeed client (\<open>client/src/App.jsx\<close>)\<close>

subsection \<open>JavaScript numbers\<close>

text \<open>
  A JavaScript number is an IEEE double. The finite values are modelled by exact reals
  (no rounding error); the three special values are kept apart, because
  \<open>video.currentTime / video.duration\<close> produces them. The sign of zero is not
  modelled: a zero divisor is \<open>+0\<close>, which is what a media element reports.
\<close>

datatype jsnum = Num real | NaN | PosInf | NegInf

fun js_div :: "jsnum \<Rightarrow> jsnum \<Rightarrow> jsnum" where
  "js_div (Num a) (Num b) =
     (if b = 0 then (if a = 0 then NaN else if 0 < a then PosInf else NegInf)
      else Num (a / b))"
| "js_div (Num a) PosInf = Num 0"
| "js_div (Num a) NegInf = Num 0"
| "js_div PosInf (Num b) = (if 0 \<le> b then PosInf else NegInf)"
| "js_div NegInf (Num b) = (if 0 \<le> b then NegInf else PosInf)"
| "js_div _ _ = NaN"

fun js_mul :: "jsnum \<Rightarrow> jsnum \<Rightarrow> jsnum" where
  "js_mul (Num a) (Num b) = Num (a * b)"
| "js_mul (Num a) PosInf = (if a = 0 then NaN else if 0 < a then PosInf else NegInf)"
| "js_mul (Num a) NegInf = (if a = 0 then NaN else if 0 < a then NegInf else PosInf)"
| "js_mul PosInf (Num b) = (if b = 0 then NaN else if 0 < b then PosInf else NegInf)"
| "js_mul NegInf (Num b) = (if b = 0 then NaN else if 0 < b then NegInf else PosInf)"
| "js_mul PosInf PosInf = PosInf"
| "js_mul NegInf NegInf = PosInf"
| "js_mul PosInf NegInf = NegInf"
| "js_mul NegInf PosInf = NegInf"
| "js_mul _ _ = NaN"

text \<open>\<open>Math.round\<close>: the nearest integer, a half rounding up; NaN and the infinities stay.\<close>

fun Math_round :: "jsnum \<Rightarrow> jsnum" where
  "Math_round (Num x) = Num (of_int \<lfloor>x + 1 / 2\<rfloor>)"
| "Math_round NaN = NaN"
| "Math_round PosInf = PosInf"
| "Math_round NegInf = NegInf"

text \<open>A number in the closed range 0..100 (false for NaN and the infinities).\<close>

fun in_percent_range :: "jsnum \<Rightarrow> bool" where
  "in_percent_range (Num x) = (0 \<le> x \<and> x \<le> 100)"
| "in_percent_range _ = False"

fun is_integer :: "jsnum \<Rightarrow> bool" where
  "is_integer (Num x) = (x = of_int \<lfloor>x\<rfloor>)"
| "is_integer _ = False"

subsection \<open>Template literals\<close>

text \<open>\<open>${n}\<close> for an integer \<open>n\<close>: its decimal digits.\<close>

definition digit :: "nat \<Rightarrow> char" where
  "digit d = ''0123456789'' ! d"

fun string_of_nat :: "nat \<Rightarrow> string" where
  "string_of_nat n =
     (if 10 \<le> n then string_of_nat (n div 10) @ [digit (n mod 10)] else [digit n])"

definition string_of_int :: "int \<Rightarrow> string" where
  "string_of_int i = (if i < 0 then CHR ''-'' # string_of_nat (nat (- i)) else string_of_nat (nat i))"

subsection \<open>Data\<close>

text \<open>The logged-in user (\<open>user.id\<close>, \<open>user.username\<close>).\<close>

record user_data =
  user_id :: int
  username :: string

text \<open>One entry of \<open>response.data.recommendations\<close>.\<close>

record recommendation =
  videoId :: int
  score :: real
  reason :: string

text \<open>The JSON of \<open>GET /recommend/{algorithm}/{userId}\<close>.\<close>

record recommend_response =
  recommendations :: "recommendation list"
  algorithm_label :: string

text \<open>The JSON of \<open>GET /video/{videoId}/stats\<close>.\<close>

record stats_response =
  stats_likes :: real
  stats_comments :: real
  stats_shares :: real
  stats_views :: real
  avg_watch_percent :: real
  completion_rate :: real

text \<open>
  The video objects built by \<open>fetchRecommendations\<close>. The fields \<open>id\<close>, \<open>score\<close>,
  \<open>reason\<close> and \<open>algorithm\<close> of the source are \<open>idv\<close>, \<open>vscore\<close>, \<open>vreason\<close> and
  \<open>valgorithm\<close> here.
\<close>

record video_object =
  idv :: int
  title :: string
  vscore :: real
  vreason :: string
  valgorithm :: string
  videoUrl :: string
  author :: string
  likes :: real
  comments :: real
  shares :: real
  views :: real
  avgWatchPercent :: real
  completionRate :: real

text \<open>A value of the \<open>userInteractions\<close> object: \<open>{ liked, watchedPercent }\<close>.\<close>

record interaction =
  liked :: int
  watchedPercent :: jsnum

text \<open>The two properties of the \<open><video>\<close> element that \<open>updateProgress\<close> reads.\<close>

record video_element =
  currentTime :: jsnum
  duration :: jsnum

text \<open>
  A JavaScript object literal with number values: the keys in the order written.
  A request is what the axios instance is asked to send.
\<close>

type_synonym js_object = "(string \<times> jsnum) list"

datatype request = Get string | Post string js_object

text \<open>
  The server as the client sees it. \<open>None\<close> is a rejected promise (network error,
  timeout, status outside 2xx); \<open>post_interaction\<close> tells whether the POST resolves.
\<close>

record api =
  get_recommend :: "string \<Rightarrow> recommend_response option"
  get_stats :: "string \<Rightarrow> stats_response option"
  post_interaction :: "js_object \<Rightarrow> bool"

text \<open>
  A pending \<open>setTimeout(() => nextVideo(), 500)\<close>: the values the \<open>nextVideo\<close> closure of
  that render captured.
\<close>

record next_closure =
  c_currentVideoIndex :: nat
  c_videos_length :: nat
  c_selectedAlgorithm :: string
  c_user :: "user_data option"

text \<open>
  A POST of \<open>sendInteraction\<close> that is awaited: the body sent and the arguments the
  continuation after \<open>await\<close> will store.
\<close>

record pending_post =
  p_videoId :: int
  p_liked :: int
  p_watchedPercent :: jsnum
  p_body :: js_object

text \<open>
  The component state (the \<open>useState\<close> cells), the timers not yet fired and the POSTs
  not yet answered.
\<close>

record app_state =
  user :: "user_data option"
  videos :: "video_object list"
  currentVideoIndex :: nat
  loading :: bool
  selectedAlgorithm :: string
  userInteractions :: "int \<rightharpoonup> interaction"
  videoProgress :: jsnum
  timers :: "next_closure list"
  in_flight :: "pending_post list"

definition CURRENT_USER_ID :: int where
  "CURRENT_USER_ID = 1"

definition initial_state :: app_state where
  "initial_state =
     \<lparr>user = None, videos = [], currentVideoIndex = 0, loading = False,
      selectedAlgorithm = ''hybrid'', userInteractions = Map.empty,
      videoProgress = Num 0, timers = [], in_flight = []\<rparr>"

subsection \<open>Sending an interaction\<close>

text \<open>\<open>user?.id || CURRENT_USER_ID\<close>: no user, or a falsy id, gives the constant.\<close>

definition userId_of :: "user_data option \<Rightarrow> int" where
  "userId_of u = (case u of None \<Rightarrow> CURRENT_USER_ID
                  | Some d \<Rightarrow> if user_id d = 0 then CURRENT_USER_ID else user_id d)"

definition interaction_body :: "user_data option \<Rightarrow> int \<Rightarrow> int \<Rightarrow> jsnum \<Rightarrow> js_object" where
  "interaction_body u videoId' liked' watchedPercent' =
     [(''userId'', Num (of_int (userId_of u))),
      (''videoId'', Num (of_int videoId')),
      (''watched_percent'', Math_round watchedPercent'),
      (''liked'', Num (of_int liked')),
      (''whenReacted'', Math_round watchedPercent')]"

text \<open>
  \<open>sendInteraction\<close> up to its \<open>await\<close>: the POST is issued and nothing else happens;
  the component goes on with the state as it is until the answer comes.
\<close>

definition sendInteraction :: "int \<Rightarrow> int \<Rightarrow> jsnum \<Rightarrow> app_state \<Rightarrow> app_state \<times> request list" where
  "sendInteraction videoId' liked' watchedPercent' s =
     (let body = interaction_body (user s) videoId' liked' watchedPercent' in
      (s\<lparr>in_flight := in_flight s @
            [\<lparr>p_videoId = videoId', p_liked = liked', p_watchedPercent = watchedPercent',
              p_body = body\<rparr>]\<rparr>,
       [Post ''/interaction'' body]))"

text \<open>
  \<open>sendInteraction\<close> after its \<open>await\<close>, on the state the component has by then: when
  the POST resolved, \<open>setUserInteractions((prev) => ({...prev, [videoId]: { liked,
  watchedPercent }}))\<close>; when it rejected, the \<open>catch\<close> only logs.
\<close>

definition interaction_answered :: "api \<Rightarrow> pending_post \<Rightarrow> app_state \<Rightarrow> app_state" where
  "interaction_answered a p s =
     (if post_interaction a (p_body p)
      then s\<lparr>userInteractions := (userInteractions s)
               (p_videoId p \<mapsto> \<lparr>liked = p_liked p, watchedPercent = p_watchedPercent p\<rparr>)\<rparr>
      else s)"

text \<open>\<open>videos[currentVideoIndex]\<close>, \<open>undefined\<close> out of range.\<close>

definition current_video :: "app_state \<Rightarrow> video_object option" where
  "current_video s =
     (if currentVideoIndex s < length (videos s) then Some (videos s ! currentVideoIndex s)
      else None)"

text \<open>\<open>userInteractions[id]?.liked === n\<close>.\<close>

definition recorded_liked_is :: "app_state \<Rightarrow> int \<Rightarrow> int \<Rightarrow> bool" where
  "recorded_liked_is s vid n =
     (case userInteractions s vid of None \<Rightarrow> False | Some i \<Rightarrow> liked i = n)"

definition handleLike :: "app_state \<Rightarrow> app_state \<times> request list" where
  "handleLike s =
     (case current_video s of
        None \<Rightarrow> (s, [])
      | Some currentVideo \<Rightarrow>
          (let isLiked = recorded_liked_is s (idv currentVideo) 1;
               newLiked = (if isLiked then 0 else 1)
           in sendInteraction (idv currentVideo) newLiked (videoProgress s) s))"

definition closure_of :: "app_state \<Rightarrow> next_closure" where
  "closure_of s =
     \<lparr>c_currentVideoIndex = currentVideoIndex s, c_videos_length = length (videos s),
      c_selectedAlgorithm = selectedAlgorithm s, c_user = user s\<rparr>"

text \<open>
  \<open>handleDislike\<close> also schedules \<open>nextVideo\<close> half a second later: the closure joins
  the pending timers and runs as an event of its own.
\<close>

definition handleDislike :: "app_state \<Rightarrow> app_state \<times> request list" where
  "handleDislike s =
     (case current_video s of
        None \<Rightarrow> (s, [])
      | Some currentVideo \<Rightarrow>
          (let isDisliked = recorded_liked_is s (idv currentVideo) (- 1);
               newLiked = (if isDisliked then 0 else - 1);
               (s', reqs) = sendInteraction (idv currentVideo) newLiked (videoProgress s) s
           in (s'\<lparr>timers := timers s' @ [closure_of s]\<rparr>, reqs)))"

text \<open>
  The \<open>timeupdate\<close> listener. Nothing guards the division: \<open>duration\<close> is NaN until the
  metadata of the video is loaded, and may be 0.
\<close>

definition updateProgress :: "video_element \<Rightarrow> app_state \<Rightarrow> app_state" where
  "updateProgress video s =
     (let progress = js_mul (js_div (currentTime video) (duration video)) (Num 100)
      in s\<lparr>videoProgress := progress\<rparr>)"

text \<open>Two servers and a feed of one video, used to run the handlers on concrete inputs.\<close>

definition accepting_api :: api where
  "accepting_api =
     \<lparr>get_recommend = (\<lambda>url. None), get_stats = (\<lambda>url. None),
      post_interaction = (\<lambda>body. True)\<rparr>"

definition failing_api :: api where
  "failing_api =
     \<lparr>get_recommend = (\<lambda>url. None), get_stats = (\<lambda>url. None),
      post_interaction = (\<lambda>body. False)\<rparr>"

definition story :: "int \<Rightarrow> video_object" where
  "story n =
     \<lparr>idv = n, title = ''Story '' @ string_of_int n, vscore = 0, vreason = ''Exploration'',
      valgorithm = ''Hybrid'', videoUrl = ''/videos/'' @ string_of_int n @ ''.mp4'',
      author = ''StoryBot'', likes = 0, comments = 0, shares = 0, views = 0,
      avgWatchPercent = 0, completionRate = 0\<rparr>"

definition one_video_state :: app_state where
  "one_video_state = initial_state\<lparr>user := Some \<lparr>user_id = 3, username = ''demo_user''\<rparr>,
                                     videos := [story 7]\<rparr>"

text \<open>The \<open>liked\<close> field of a request body.\<close>

fun request_liked :: "request \<Rightarrow> jsnum option" where
  "request_liked (Post url body) = map_of body ''liked''"
| "request_liked (Get url) = None"

subsection \<open>Fetching recommendations\<close>

definition recommend_url :: "string \<Rightarrow> int \<Rightarrow> string" where
  "recommend_url algorithm userId = ''/recommend/'' @ algorithm @ ''/'' @ string_of_int userId"

definition stats_url :: "int \<Rightarrow> string" where
  "stats_url vid = ''/video/'' @ string_of_int vid @ ''/stats''"

text \<open>
  The body of \<open>recommendations.map(async (rec) => ...)\<close>: the \<open>try\<close> branch when the
  stats request resolves, the \<open>catch\<close> branch when it rejects.
\<close>

definition video_of_recommendation :: "api \<Rightarrow> recommend_response \<Rightarrow> recommendation \<Rightarrow> video_object" where
  "video_of_recommendation a response rec =
     (case get_stats a (stats_url (videoId rec)) of
        Some stats \<Rightarrow>
          \<lparr>idv = videoId rec, title = ''Story '' @ string_of_int (videoId rec),
           vscore = score rec, vreason = reason rec, valgorithm = algorithm_label response,
           videoUrl = ''/videos/'' @ string_of_int (videoId rec) @ ''.mp4'',
           author = ''StoryBot'', likes = stats_likes stats, comments = stats_comments stats,
           shares = stats_shares stats, views = stats_views stats,
           avgWatchPercent = avg_watch_percent stats,
           completionRate = completion_rate stats\<rparr>
      | None \<Rightarrow>
          \<lparr>idv = videoId rec, title = ''Story '' @ string_of_int (videoId rec),
           vscore = score rec, vreason = reason rec, valgorithm = algorithm_label response,
           videoUrl = ''/videos/'' @ string_of_int (videoId rec) @ ''.mp4'',
           author = ''StoryBot'', likes = 0, comments = 0, shares = 0, views = 0,
           avgWatchPercent = 0, completionRate = 0\<rparr>)"

text \<open>
  \<open>fetchRecommendations\<close>, a closure over \<open>user\<close>. The argument is \<open>None\<close> when the
  caller passes nothing, and the default \<open>"hybrid"\<close> applies. A rejected recommend
  request appends nothing; \<open>finally\<close> clears \<open>loading\<close> on both paths.
\<close>

definition fetchRecommendations ::
  "api \<Rightarrow> user_data option \<Rightarrow> string option \<Rightarrow> app_state \<Rightarrow> app_state \<times> request list" where
  "fetchRecommendations a u algorithm_arg s =
     (let algorithm = (case algorithm_arg of None \<Rightarrow> ''hybrid'' | Some x \<Rightarrow> x);
          url = recommend_url algorithm (userId_of u)
      in case get_recommend a url of
           None \<Rightarrow> (s\<lparr>loading := False\<rparr>, [Get url])
         | Some response \<Rightarrow>
             (let videoObjects =
                    map (video_of_recommendation a response) (recommendations response)
              in (s\<lparr>videos := videos s @ videoObjects, loading := False\<rparr>,
                  Get url # map (\<lambda>rec. Get (stats_url (videoId rec)))
                              (recommendations response))))"

subsection \<open>Handlers and effects\<close>

definition algorithm_options :: "string list" where
  "algorithm_options = [''hybrid'', ''twoTower'', ''bandit'']"

text \<open>The effect of lines 143-150, run when \<open>user\<close> or \<open>selectedAlgorithm\<close> changed.\<close>

definition initial_fetch_effect :: "api \<Rightarrow> app_state \<Rightarrow> app_state \<times> request list" where
  "initial_fetch_effect a s =
     (if user s \<noteq> None
      then fetchRecommendations a (user s) (Some (selectedAlgorithm s))
             (s\<lparr>videos := [], currentVideoIndex := 0, userInteractions := Map.empty\<rparr>)
      else (s, []))"

text \<open>The effect of lines 153-171.\<close>

definition load_more_effect :: "api \<Rightarrow> app_state \<Rightarrow> app_state \<times> request list" where
  "load_more_effect a s =
     (let remainingVideos = int (length (videos s)) - int (currentVideoIndex s)
      in if remainingVideos \<le> 2 \<and> remainingVideos > 0 \<and> \<not> loading s
            \<and> length (videos s) > 0 \<and> user s \<noteq> None
         then fetchRecommendations a (user s) (Some (selectedAlgorithm s)) s
         else (s, []))"

text \<open>
  \<open>nextVideo\<close> tests the index and the length its render captured; the index update
  itself is functional (\<open>prev => prev + 1\<close>).
\<close>

definition nextVideo :: "api \<Rightarrow> next_closure \<Rightarrow> app_state \<Rightarrow> app_state \<times> request list" where
  "nextVideo a c s =
     (if int (c_currentVideoIndex c) < int (c_videos_length c) - 1
      then (s\<lparr>currentVideoIndex := currentVideoIndex s + 1\<rparr>, [])
      else fetchRecommendations a (c_user c) (Some (c_selectedAlgorithm c)) s)"

definition prevVideo :: "app_state \<Rightarrow> app_state" where
  "prevVideo s =
     (if currentVideoIndex s > 0 then s\<lparr>currentVideoIndex := currentVideoIndex s - 1\<rparr> else s)"

definition refreshFeed :: "api \<Rightarrow> app_state \<Rightarrow> app_state \<times> request list" where
  "refreshFeed a s =
     fetchRecommendations a (user s) (Some (selectedAlgorithm s))
       (s\<lparr>videos := [], currentVideoIndex := 0\<rparr>)"

definition handleLogin :: "user_data \<Rightarrow> app_state \<Rightarrow> app_state" where
  "handleLogin userData s = s\<lparr>user := Some userData\<rparr>"

definition handleLogout :: "app_state \<Rightarrow> app_state" where
  "handleLogout s =
     s\<lparr>user := None, videos := [], currentVideoIndex := 0, userInteractions := Map.empty\<rparr>"

text \<open>
  What can happen to the component. Without a user only the login form is rendered, so
  the buttons, the selector and the player exist only when \<open>user\<close> is set. A pending
  timer fires whatever the state is then. Which renders have the \<open>timeupdate\<close> listener
  attached (the effect of lines 173-184 runs when \<open>currentVideoIndex\<close> changes) is not
  tracked: the event is taken whenever a video is shown. \<open>AlgorithmChange k\<close> is the
  \<open>onChange\<close> of the selector with the \<open>k\<close>-th option chosen: \<open>e.target.value\<close> is that
  option's value, and the event comes only when the value changes. \<open>PostAnswered k\<close> is
  the answer to the \<open>k\<close>-th POST in flight, as the server of that step gives it; answers
  come in any order, also after a logout.
\<close>

datatype event =
    Login user_data
  | Logout
  | AlgorithmChange nat
  | Like
  | Dislike
  | Next
  | Prev
  | Refresh
  | TimeUpdate video_element
  | TimerFires
  | PostAnswered nat
  | LoadMore

fun step :: "api \<Rightarrow> event \<Rightarrow> app_state \<Rightarrow> app_state \<times> request list" where
  "step a (Login userData) s =
     (if user s = None then initial_fetch_effect a (handleLogin userData s) else (s, []))"
| "step a TimerFires s =
     (case timers s of [] \<Rightarrow> (s, []) | c # cs \<Rightarrow> nextVideo a c (s\<lparr>timers := cs\<rparr>))"
| "step a Logout s = (if user s = None then (s, []) else (handleLogout s, []))"
| "step a (AlgorithmChange k) s =
     (if user s = None \<or> \<not> k < length algorithm_options
         \<or> algorithm_options ! k = selectedAlgorithm s
      then (s, [])
      else initial_fetch_effect a (s\<lparr>selectedAlgorithm := algorithm_options ! k\<rparr>))"
| "step a Like s = (if user s = None then (s, []) else handleLike s)"
| "step a Dislike s = (if user s = None then (s, []) else handleDislike s)"
| "step a (PostAnswered k) s =
     (if k < length (in_flight s)
      then (interaction_answered a (in_flight s ! k)
              (s\<lparr>in_flight := take k (in_flight s) @ drop (Suc k) (in_flight s)\<rparr>), [])
      else (s, []))"
| "step a Next s = (if user s = None then (s, []) else nextVideo a (closure_of s) s)"
| "step a Prev s = (if user s = None then (s, []) else (prevVideo s, []))"
| "step a Refresh s = (if user s = None then (s, []) else refreshFeed a s)"
| "step a (TimeUpdate video) s =
     (if user s = None \<or> current_video s = None then (s, []) else (updateProgress video s, []))"
| "step a LoadMore s = load_more_effect a s"

text \<open>A run of the component: the events in order, each with the server as it answers then.\<close>

fun run :: "(api \<times> event) list \<Rightarrow> app_state \<Rightarrow> app_state \<times> request list" where
  "run [] s = (s, [])"
| "run ((a, ev) # rest) s =
     (let (s1, reqs1) = step a ev s; (s2, reqs2) = run rest s1 in (s2, reqs1 @ reqs2))"

text \<open>A feed of five videos, the first one recorded as neutral.\<close>

definition feed_state :: app_state where
  "feed_state =
     initial_state\<lparr>user := Some \<lparr>user_id = 3, username = ''demo_user''\<rparr>,
                   videos := map story [7, 8, 9, 10, 11],
                   userInteractions := [7 \<mapsto> \<lparr>liked = 0, watchedPercent = Num 0\<rparr>]\<rparr>"

text \<open>
  A recommendation request is well formed when its algorithm is one of the three the
  server knows; the invariant says that the selector state and every pending closure hold
  such a name.
\<close>

definition good_request :: "request \<Rightarrow> bool" where
  "good_request r = (\<forall>url. r = Get url \<and> take 11 url = ''/recommend/'' \<longrightarrow>
      (\<exists>alg uid. alg \<in> {''twoTower'', ''hybrid'', ''bandit''} \<and> url = recommend_url alg uid))"

definition algorithm_inv :: "app_state \<Rightarrow> bool" where
  "algorithm_inv s = (selectedAlgorithm s \<in> set algorithm_options
      \<and> (\<forall>c \<in> set (timers s). c_selectedAlgorithm c \<in> set algorithm_options))"


text \<open>A server with two recommendations, the stats of the first of which fail.\<close>

definition demo_response :: recommend_response where
  "demo_response =
     \<lparr>recommendations =
        [\<lparr>videoId = 105, score = 1 / 2, reason = ''Exploitation''\<rparr>,
         \<lparr>videoId = 110, score = 0, reason = ''Exploration (random)''\<rparr>],
      algorithm_label = ''Multi-Armed Bandit (Epsilon-Greedy)''\<rparr>"

definition demo_api :: api where
  "demo_api =
     \<lparr>get_recommend = (\<lambda>url. Some demo_response),
      get_stats = (\<lambda>url. if url = ''/video/105/stats'' then None
          else Some \<lparr>stats_likes = 4, stats_comments = 0, stats_shares = 0, stats_views = 9,
                 avg_watch_percent = 55, completion_rate = 20\<rparr>),
      post_interaction = (\<lambda>body. True)\<rparr>"


text \<open>The feed with the player 67 seconds into a video of 200.\<close>

definition feed_at_67 :: app_state where
  "feed_at_67 =
     fst (step accepting_api (TimeUpdate \<lparr>currentTime = Num 67, duration = Num 200\<rparr>)
            feed_state)"

section \<open>Recommendation engine\<close>

text \<open>
  The engine (the interaction store, the three models and the service) is written in
  Python and is no part of the client sources. Its scoring and its bandit are modelled
  from the design text, sections 3 and 4. All arithmetic is over exact reals.
\<close>

subsection \<open>ContentIndex: vectors and cosine similarity\<close>

type_synonym vec = "real list"

text \<open>Modelled from the spec: the inner product behind "cosine similarity" (section 4.2);
  the engine's vector code is missing.\<close>

definition dot :: "vec \<Rightarrow> vec \<Rightarrow> real" where
  "dot a b = sum_list (map2 (*) a b)"

text \<open>Modelled from the spec: the norm of "zero norm" (section 4.2).\<close>

definition vnorm :: "vec \<Rightarrow> real" where
  "vnorm a = sqrt (dot a a)"

text \<open>Modelled from the spec: \<open>ContentIndex.similarity\<close>, "cosine similarity, defined as 0
  when either vector has zero norm" (section 4.2).\<close>

definition similarity :: "vec \<Rightarrow> vec \<Rightarrow> real" where
  "similarity vecA vecB =
     (if vnorm vecA = 0 \<or> vnorm vecB = 0 then 0
      else dot vecA vecB / (vnorm vecA * vnorm vecB))"

text \<open>Modelled from the spec: "vectors are non-negative TF-IDF weighted" (section 8): no
  component is negative. The weighting itself is not given.\<close>

definition nonneg :: "vec \<Rightarrow> bool" where
  "nonneg v = (\<forall>x \<in> set v. 0 \<le> x)"

subsection \<open>Interactions and their weights\<close>

text \<open>Modelled from the spec: the Interaction of the data model (section 3); the
  interaction store is missing.\<close>

record stored_interaction =
  i_userId :: int
  i_videoId :: int
  i_watchedPercent :: real
  i_liked :: int
  i_whenReacted :: "real option"
  i_timestamp :: nat

text \<open>Modelled from the spec: the ranges \<open>InteractionStore.append\<close> validates
  (sections 3 and 4.1).\<close>

definition valid_interaction :: "stored_interaction \<Rightarrow> bool" where
  "valid_interaction i =
     (0 \<le> i_watchedPercent i \<and> i_watchedPercent i \<le> 100 \<and> i_liked i \<in> {- 1, 0, 1})"

text \<open>Modelled from the spec: the interaction weight
  \<open>w = watchedPercent/100 \<times> (1.5 if liked==1 else 0.3 if liked==-1 else 1.0)\<close>
  (section 4.3).\<close>

definition weight :: "stored_interaction \<Rightarrow> real" where
  "weight i = i_watchedPercent i / 100 *
     (if i_liked i = 1 then 3 / 2 else if i_liked i = - 1 then 3 / 10 else 1)"

text \<open>Modelled from the spec: the interactions of one user, all of them retained
  (section 3).\<close>

definition userHistory :: "stored_interaction list \<Rightarrow> int \<Rightarrow> stored_interaction list" where
  "userHistory interactions uid = filter (\<lambda>i. i_userId i = uid) interactions"

subsection \<open>TwoTowerModel\<close>

text \<open>Modelled from the spec: a vector times a weight, for "weighted by w" (section 4.3).\<close>

definition vscale :: "real \<Rightarrow> vec \<Rightarrow> vec" where
  "vscale c v = map ((*) c) v"

text \<open>Modelled from the spec: the sum of two vectors of the vocabulary's dimension
  (section 4.3).\<close>

definition vadd :: "vec \<Rightarrow> vec \<Rightarrow> vec" where
  "vadd a b = map2 (+) a b"

text \<open>Modelled from the spec: "renormalized" (section 4.3): scaled to norm 1, the zero
  vector staying as it is.\<close>

definition renormalize :: "vec \<Rightarrow> vec" where
  "renormalize v = (if vnorm v = 0 then v else vscale (1 / vnorm v) v)"

text \<open>Modelled from the spec: the user embedding of the fit procedure, "the ContentVector
  of each interacted video weighted by w, summed and renormalized" (section 4.3). The
  content vectors \<open>cv\<close> (by videoId) and their dimension are parameters: the TF-IDF
  weighting of ContentIndex is not given.\<close>

definition userEmbedding :: "(int \<Rightarrow> vec) \<Rightarrow> nat \<Rightarrow> stored_interaction list \<Rightarrow> int \<Rightarrow> vec" where
  "userEmbedding cv dims interactions uid =
     renormalize (foldr (\<lambda>i acc. vadd (vscale (weight i) (cv (i_videoId i))) acc)
                    (userHistory interactions uid) (replicate dims 0))"

text \<open>Modelled from the spec: \<open>score(user, video) = cosine(userEmbedding, videoEmbedding)\<close>,
  the video embedding being its ContentVector (section 4.3).\<close>

definition twoTower_score :: "(int \<Rightarrow> vec) \<Rightarrow> nat \<Rightarrow> stored_interaction list \<Rightarrow> int \<Rightarrow> int \<Rightarrow> real" where
  "twoTower_score cv dims interactions uid vid =
     similarity (userEmbedding cv dims interactions uid) (cv vid)"

subsection \<open>HybridModel\<close>

text \<open>Modelled from the spec: the item-item similarity matrix, "pairwise
  ContentIndex.similarity over all videos" (section 4.4).\<close>

definition itemSimilarity :: "(int \<Rightarrow> vec) \<Rightarrow> int \<Rightarrow> int \<Rightarrow> real" where
  "itemSimilarity cv v c = similarity (cv v) (cv c)"

text \<open>Modelled from the spec: the score of a candidate, the sum over the user history of
  \<open>weight(v) \<times> itemSimilarity(v, candidate)\<close>, normalized by the sum of the weights
  (section 4.4), every interaction of the history counting (section 9). The text does
  not say what the quotient is when the weights sum to 0: there is no score then.\<close>

definition hybrid_score :: "(int \<Rightarrow> vec) \<Rightarrow> stored_interaction list \<Rightarrow> int \<Rightarrow> int \<Rightarrow> real option" where
  "hybrid_score cv interactions uid candidate =
     (let h = userHistory interactions uid;
          total = (\<Sum>i\<leftarrow>h. weight i)
      in if total = 0 then None
         else Some ((\<Sum>i\<leftarrow>h. weight i * itemSimilarity cv (i_videoId i) candidate) / total))"

text \<open>Three content vectors and one interaction, to run the scores on.\<close>

definition demo_vectors :: "int \<Rightarrow> vec" where
  "demo_vectors v = (if v = 10 then [3, 4] else if v = 11 then [4, 3] else [0, 0])"

definition demo_interactions :: "stored_interaction list" where
  "demo_interactions = [\<lparr>i_userId = 1, i_videoId = 10, i_watchedPercent = 100, i_liked = 0,
      i_whenReacted = None, i_timestamp = 0\<rparr>]"

subsection \<open>BanditModel\<close>

text \<open>Modelled from the spec: the BanditArm of the data model, one per video
  (section 3); the bandit model is missing.\<close>

record bandit_arm =
  arm_videoId :: int
  pullCount :: nat
  totalReward :: real

text \<open>Modelled from the spec: \<open>averageReward = totalReward / max(pullCount,1)\<close>
  (section 3).\<close>

definition averageReward :: "bandit_arm \<Rightarrow> real" where
  "averageReward arm = totalReward arm / real (max (pullCount arm) 1)"

text \<open>Modelled from the spec: the order of exploitation, "highest averageReward", "ties in
  average reward broken by lower videoId" (section 4.5).\<close>

definition better :: "bandit_arm \<Rightarrow> bandit_arm \<Rightarrow> bool" where
  "better a b = (averageReward b < averageReward a
      \<or> (averageReward a = averageReward b \<and> arm_videoId a < arm_videoId b))"

text \<open>Modelled from the spec: "the unselected arm with highest averageReward"
  (section 4.5), by one pass over the arms not yet selected.\<close>

fun best_arm :: "bandit_arm list \<Rightarrow> bandit_arm option" where
  "best_arm [] = None"
| "best_arm (a # rest) =
     (case best_arm rest of None \<Rightarrow> Some a
      | Some b \<Rightarrow> if better b a then Some b else Some a)"

text \<open>Modelled from the spec: selection is "without replacement" (section 4.5): a selected
  video leaves the arms still to choose from.\<close>

definition unselect :: "bandit_arm \<Rightarrow> bandit_arm list \<Rightarrow> bandit_arm list" where
  "unselect a remaining = filter (\<lambda>b. arm_videoId b \<noteq> arm_videoId a) remaining"

text \<open>Modelled from the spec: \<open>chooseCandidates(k)\<close> (section 4.5): "repeat k times: with
  probability \<epsilon> select a uniformly random video without replacement (reason "Exploration
  (random)", score 0.0); else select the unselected arm with highest averageReward (reason
  "Exploitation (best performing)" for the top pick, "Exploitation" for subsequent exploit
  picks), score = that arm's averageReward. If fewer than k videos exist, returns as many
  as available." The random source is an argument: draw \<open>i\<close> is a number of the unit
  interval, compared with \<open>\<epsilon>\<close>, and a natural number that picks the video. The top pick
  is taken to be the first exploit pick.\<close>

fun choose_loop ::
  "real \<Rightarrow> (nat \<Rightarrow> real \<times> nat) \<Rightarrow> nat \<Rightarrow> nat \<Rightarrow> bool \<Rightarrow> bandit_arm list \<Rightarrow> recommendation list" where
  "choose_loop epsilon rnd i 0 exploited remaining = []"
| "choose_loop epsilon rnd i (Suc k) exploited remaining =
     (if remaining = [] then []
      else if fst (rnd i) < epsilon then
        (let a = remaining ! (snd (rnd i) mod length remaining)
         in \<lparr>videoId = arm_videoId a, score = 0, reason = ''Exploration (random)''\<rparr>
            # choose_loop epsilon rnd (Suc i) k exploited (unselect a remaining))
      else
        (case best_arm remaining of
           None \<Rightarrow> []
         | Some a \<Rightarrow>
             \<lparr>videoId = arm_videoId a, score = averageReward a,
              reason = (if exploited then ''Exploitation'' else ''Exploitation (best performing)'')\<rparr>
             # choose_loop epsilon rnd (Suc i) k True (unselect a remaining)))"

text \<open>Modelled from the spec: \<open>BanditModel.chooseCandidates\<close> (section 4.5), the loop
  started with nothing selected.\<close>

definition chooseCandidates ::
  "real \<Rightarrow> (nat \<Rightarrow> real \<times> nat) \<Rightarrow> nat \<Rightarrow> bandit_arm list \<Rightarrow> recommendation list" where
  "chooseCandidates epsilon rnd k arms = choose_loop epsilon rnd 0 k False arms"

text \<open>Modelled from the spec: "with probability \<epsilon>" (section 4.5): the numbers of the random
  source lie in the unit interval \<open>[0, 1)\<close>.\<close>

definition unit_draws :: "(nat \<Rightarrow> real \<times> nat) \<Rightarrow> bool" where
  "unit_draws rnd = (\<forall>i. 0 \<le> fst (rnd i) \<and> fst (rnd i) < 1)"

text \<open>The first \<open>k\<close> arms in the order of exploitation, by repeated selection: what the
  loop lists when it never explores.\<close>

fun top_arms :: "nat \<Rightarrow> bandit_arm list \<Rightarrow> bandit_arm list" where
  "top_arms 0 remaining = []"
| "top_arms (Suc k) remaining =
     (case best_arm remaining of None \<Rightarrow> []
      | Some a \<Rightarrow> a # top_arms k (unselect a remaining))"

text \<open>Three arms, two of them tied, and a constant random source.\<close>

definition demo_arms :: "bandit_arm list" where
  "demo_arms =
     [\<lparr>arm_videoId = 3, pullCount = 2, totalReward = 1\<rparr>,
      \<lparr>arm_videoId = 1, pullCount = 5, totalReward = 4\<rparr>,
      \<lparr>arm_videoId = 2, pullCount = 4, totalReward = 2\<rparr>]"

definition demo_draws :: "nat \<Rightarrow> real \<times> nat" where
  "demo_draws i = (1 / 2, 0)"

section \<open>Properties of the client\<close>

lemma sendInteraction_requests:
  "snd (sendInteraction v l w s) = [Post ''/interaction'' (interaction_body (user s) v l w)]"
  by (simp add: sendInteraction_def Let_def)

lemma liked_of_body: "map_of (interaction_body u v l w) ''liked'' = Some (Num (of_int l))"
  by (simp add: interaction_body_def)

lemma handleLike_requests:
  "snd (handleLike s) =
     (case current_video s of None \<Rightarrow> []
      | Some v \<Rightarrow> [Post ''/interaction''
          (interaction_body (user s) (idv v) (if recorded_liked_is s (idv v) 1 then 0 else 1)
             (videoProgress s))])"
  by (simp add: handleLike_def Let_def sendInteraction_requests split: option.splits)

lemma handleDislike_requests:
  "snd (handleDislike s) =
     (case current_video s of None \<Rightarrow> []
      | Some v \<Rightarrow> [Post ''/interaction''
          (interaction_body (user s) (idv v) (if recorded_liked_is s (idv v) (- 1) then 0 else - 1)
             (videoProgress s))])"
  by (simp add: handleDislike_def Let_def sendInteraction_def split: option.splits)

text \<open>
  C1. A press of like with a video on screen sends exactly one POST to \<open>/interaction\<close>,
  whose \<open>liked\<close> is \<open>1\<close>, or \<open>0\<close> when the recorded state of that video is already \<open>1\<close>;
  a press of dislike sends exactly one, whose \<open>liked\<close> is \<open>-1\<close>, or \<open>0\<close> when the recorded
  state is already \<open>-1\<close>. With no video on screen neither handler sends anything. So the
  field is always one of \<open>-1\<close>, \<open>0\<close>, \<open>1\<close>.
\<close>

theorem liked_sent_by_handlers:
  "(current_video s = Some v \<longrightarrow>
      snd (handleLike s) =
        [Post ''/interaction'' (interaction_body (user s) (idv v)
           (if recorded_liked_is s (idv v) 1 then 0 else 1) (videoProgress s))]
    \<and> snd (handleDislike s) =
        [Post ''/interaction'' (interaction_body (user s) (idv v)
           (if recorded_liked_is s (idv v) (- 1) then 0 else - 1) (videoProgress s))]
    \<and> map request_liked (snd (handleLike s))
        = [Some (Num (if recorded_liked_is s (idv v) 1 then 0 else 1))]
    \<and> map request_liked (snd (handleDislike s))
        = [Some (Num (if recorded_liked_is s (idv v) (- 1) then 0 else - 1))])
   \<and> (current_video s = None \<longrightarrow> snd (handleLike s) = [] \<and> snd (handleDislike s) = [])
   \<and> (\<forall>r \<in> set (snd (handleLike s)) \<union> set (snd (handleDislike s)).
        request_liked r \<in> {Some (Num (- 1)), Some (Num 0), Some (Num 1)})"
proof (cases "current_video s")
  case None
  then show ?thesis
    by (simp add: handleLike_requests handleDislike_requests)
next
  case (Some v')
  then show ?thesis
    by (simp add: handleLike_requests handleDislike_requests liked_of_body)
qed

theorem liked_sent_by_handlers_witness:
  "current_video feed_state = Some (story 7)
   \<and> map request_liked (snd (handleLike feed_state)) = [Some (Num 1)]
   \<and> map request_liked (snd (handleDislike feed_state)) = [Some (Num (- 1))]
   \<and> map request_liked (snd (handleLike
        (feed_state\<lparr>userInteractions := [7 \<mapsto> \<lparr>liked = 1, watchedPercent = Num 40\<rparr>]\<rparr>)))
       = [Some (Num 0)]
   \<and> map request_liked (snd (handleDislike
        (feed_state\<lparr>userInteractions := [7 \<mapsto> \<lparr>liked = 1, watchedPercent = Num 40\<rparr>]\<rparr>)))
       = [Some (Num (- 1))]
   \<and> map request_liked (snd (handleLike
        (feed_state\<lparr>userInteractions := [7 \<mapsto> \<lparr>liked = - 1, watchedPercent = Num 40\<rparr>]\<rparr>)))
       = [Some (Num 1)]
   \<and> map request_liked (snd (handleDislike
        (feed_state\<lparr>userInteractions := [7 \<mapsto> \<lparr>liked = - 1, watchedPercent = Num 40\<rparr>]\<rparr>)))
       = [Some (Num 0)]
   \<and> map request_liked (snd (handleLike (feed_state\<lparr>userInteractions := Map.empty\<rparr>)))
       = [Some (Num 1)]
   \<and> map request_liked (snd (handleDislike (feed_state\<lparr>userInteractions := Map.empty\<rparr>)))
       = [Some (Num (- 1))]
   \<and> current_video (feed_state\<lparr>videos := []\<rparr>) = None
   \<and> snd (handleLike (feed_state\<lparr>videos := []\<rparr>)) = []
   \<and> snd (handleDislike (feed_state\<lparr>videos := []\<rparr>)) = []"
proof -
  let ?liked = "feed_state\<lparr>userInteractions := [7 \<mapsto> \<lparr>liked = 1, watchedPercent = Num 40\<rparr>]\<rparr>"
  let ?disliked = "feed_state\<lparr>userInteractions := [7 \<mapsto> \<lparr>liked = - 1, watchedPercent = Num 40\<rparr>]\<rparr>"
  let ?fresh = "feed_state\<lparr>userInteractions := Map.empty\<rparr>"
  let ?empty = "feed_state\<lparr>videos := []\<rparr>"
  have cv: "current_video feed_state = Some (story 7)" "current_video ?liked = Some (story 7)"
    "current_video ?disliked = Some (story 7)" "current_video ?fresh = Some (story 7)"
    "current_video ?empty = None"
    by (simp_all add: current_video_def feed_state_def initial_state_def)
  have r: "\<not> recorded_liked_is feed_state (idv (story 7)) 1"
    "\<not> recorded_liked_is feed_state (idv (story 7)) (- 1)"
    "recorded_liked_is ?liked (idv (story 7)) 1" "\<not> recorded_liked_is ?liked (idv (story 7)) (- 1)"
    "\<not> recorded_liked_is ?disliked (idv (story 7)) 1"
    "recorded_liked_is ?disliked (idv (story 7)) (- 1)"
    "\<not> recorded_liked_is ?fresh (idv (story 7)) 1" "\<not> recorded_liked_is ?fresh (idv (story 7)) (- 1)"
    by (simp_all add: recorded_liked_is_def feed_state_def initial_state_def story_def)
  from liked_sent_by_handlers [of feed_state "story 7"] cv(1) r(1,2)
  have a: "map request_liked (snd (handleLike feed_state)) = [Some (Num 1)]"
    "map request_liked (snd (handleDislike feed_state)) = [Some (Num (- 1))]"
    by (simp_all add: liked_of_body)
  from liked_sent_by_handlers [of ?liked "story 7"] cv(2) r(3,4)
  have b: "map request_liked (snd (handleLike ?liked)) = [Some (Num 0)]"
    "map request_liked (snd (handleDislike ?liked)) = [Some (Num (- 1))]"
    by (simp_all add: liked_of_body)
  from liked_sent_by_handlers [of ?disliked "story 7"] cv(3) r(5,6)
  have c: "map request_liked (snd (handleLike ?disliked)) = [Some (Num 1)]"
    "map request_liked (snd (handleDislike ?disliked)) = [Some (Num 0)]"
    by (simp_all add: liked_of_body)
  from liked_sent_by_handlers [of ?fresh "story 7"] cv(4) r(7,8)
  have d: "map request_liked (snd (handleLike ?fresh)) = [Some (Num 1)]"
    "map request_liked (snd (handleDislike ?fresh)) = [Some (Num (- 1))]"
    by (simp_all add: liked_of_body)
  from liked_sent_by_handlers [of ?empty "story 7"] cv(5)
  have e: "snd (handleLike ?empty) = []" "snd (handleDislike ?empty) = []"
    by simp_all
  from cv(1,5) a b c d e show ?thesis by (intro conjI)
qed

lemma progress_in_range:
  assumes "0 \<le> ct" "ct \<le> d" "0 < d"
  shows "in_percent_range (Math_round (videoProgress
           (updateProgress \<lparr>currentTime = Num ct, duration = Num d\<rparr> s)))"
proof -
  have a: "0 \<le> ct / d * 100" using assms by simp
  have "ct / d \<le> 1" using assms by simp
  then have "ct / d * 100 \<le> 1 * 100" by (rule mult_right_mono) simp
  then have b: "ct / d * 100 \<le> 100" by simp
  have "0 \<le> \<lfloor>ct / d * 100 + 1 / 2\<rfloor>" using a by simp
  moreover have "\<lfloor>ct / d * 100 + 1 / 2\<rfloor> \<le> 100" using b by (simp add: floor_le_iff)
  ultimately show ?thesis using assms
    by (simp add: updateProgress_def Let_def)
qed

text \<open>
  C3, on a feed of five videos, after two steps to the third video, at a \<open>timeupdate\<close>
  event of a video whose metadata is not loaded (\<open>duration\<close> is NaN, \<open>currentTime\<close> is 0)
  and of a video of duration 0: the listener stores NaN, \<open>Math.round\<close> keeps it, and the
  next like or dislike sends \<open>watched_percent\<close> and \<open>whenReacted\<close> that are no numbers
  in 0..100.
\<close>

theorem progress_NaN_when_duration_unknown:
  "snd (run [(accepting_api, Next), (accepting_api, Next),
             (accepting_api, TimeUpdate \<lparr>currentTime = Num 0, duration = NaN\<rparr>),
             (accepting_api, Like)] feed_state)
      = [Post ''/interaction''
          [(''userId'', Num 3), (''videoId'', Num 9), (''watched_percent'', NaN),
           (''liked'', Num 1), (''whenReacted'', NaN)]]
   \<and> snd (run [(accepting_api, Next), (accepting_api, Next),
                (accepting_api, TimeUpdate \<lparr>currentTime = Num 0, duration = Num 0\<rparr>),
                (accepting_api, Dislike)] feed_state)
      = [Post ''/interaction''
          [(''userId'', Num 3), (''videoId'', Num 9), (''watched_percent'', NaN),
           (''liked'', Num (- 1)), (''whenReacted'', NaN)]]
   \<and> \<not> in_percent_range NaN"
  by (simp add: updateProgress_def Let_def handleLike_requests handleDislike_requests
        nextVideo_def closure_of_def current_video_def feed_state_def initial_state_def
        interaction_body_def userId_of_def recorded_liked_is_def story_def)

text \<open>
  What every invocation of \<open>sendInteraction\<close> does send: one POST to \<open>/interaction\<close>
  whose body has exactly the keys \<open>userId\<close>, \<open>videoId\<close>, \<open>watched_percent\<close>, \<open>liked\<close>,
  \<open>whenReacted\<close>, the two percent fields both \<open>Math.round(watchedPercent)\<close>, which is
  an integer whenever \<open>watchedPercent\<close> is finite.
\<close>

lemma sendInteraction_body:
  "\<exists>body. snd (sendInteraction v l w s) = [Post ''/interaction'' body]
     \<and> map fst body = [''userId'', ''videoId'', ''watched_percent'', ''liked'', ''whenReacted'']
     \<and> map_of body ''userId'' = Some (Num (of_int (userId_of (user s))))
     \<and> map_of body ''videoId'' = Some (Num (of_int v))
     \<and> map_of body ''liked'' = Some (Num (of_int l))
     \<and> map_of body ''watched_percent'' = Some (Math_round w)
     \<and> map_of body ''whenReacted'' = Some (Math_round w)
     \<and> (\<forall>x. w = Num x \<longrightarrow> is_integer (Math_round w))"
  by (simp add: sendInteraction_requests interaction_body_def)

text \<open>
  C4, on the feed of five videos at its third video, after a \<open>timeupdate\<close> event of a
  video whose metadata is not loaded: the like handler calls \<open>sendInteraction\<close> with a
  progress of NaN, and the body it builds has the five keys, but its \<open>watched_percent\<close>
  and \<open>whenReacted\<close> are NaN, not integers.
\<close>

theorem body_not_integer_at_NaN_progress:
  "snd (run [(accepting_api, Next), (accepting_api, Next),
             (accepting_api, TimeUpdate \<lparr>currentTime = Num 0, duration = NaN\<rparr>),
             (accepting_api, Like)] feed_state)
      = [Post ''/interaction''
           (interaction_body (Some \<lparr>user_id = 3, username = ''demo_user''\<rparr>) 9 1 NaN)]
   \<and> map fst (interaction_body (Some \<lparr>user_id = 3, username = ''demo_user''\<rparr>) 9 1 NaN)
       = [''userId'', ''videoId'', ''watched_percent'', ''liked'', ''whenReacted'']
   \<and> map_of (interaction_body (Some \<lparr>user_id = 3, username = ''demo_user''\<rparr>) 9 1 NaN)
         ''watched_percent'' = Some NaN
   \<and> map_of (interaction_body (Some \<lparr>user_id = 3, username = ''demo_user''\<rparr>) 9 1 NaN)
         ''whenReacted'' = Some NaN
   \<and> \<not> is_integer NaN"
  by (simp add: updateProgress_def Let_def handleLike_requests
        nextVideo_def closure_of_def current_video_def feed_state_def initial_state_def
        interaction_body_def userId_of_def recorded_liked_is_def story_def)



text \<open>
  C8, as stated, on the feed with the player at 33.5 percent: like is pressed and the
  POST is answered. The request carries \<open>watched_percent = 34\<close>; the entry recorded is
  \<open>watchedPercent = 33.5\<close>, not the value sent. And until the answer comes the entry is
  the old one: the record does not change with the call.
\<close>

theorem stored_is_not_sent_counterexample:
  "videoProgress feed_at_67 = Num (67 / 2)
   \<and> snd (run [(accepting_api, Like), (accepting_api, PostAnswered 0)] feed_at_67)
       = [Post ''/interaction''
           [(''userId'', Num 3), (''videoId'', Num 7), (''watched_percent'', Num 34),
            (''liked'', Num 1), (''whenReacted'', Num 34)]]
   \<and> userInteractions (fst (run [(accepting_api, Like)] feed_at_67)) 7
       = Some \<lparr>liked = 0, watchedPercent = Num 0\<rparr>
   \<and> userInteractions (fst (run [(accepting_api, Like), (accepting_api, PostAnswered 0)]
                                feed_at_67)) 7
       = Some \<lparr>liked = 1, watchedPercent = Num (67 / 2)\<rparr>
   \<and> Num (67 / 2) \<noteq> Num 34"
  by (simp add: feed_at_67_def updateProgress_def Let_def handleLike_def sendInteraction_def
        interaction_answered_def accepting_api_def current_video_def feed_state_def
        initial_state_def interaction_body_def userId_of_def recorded_liked_is_def story_def)

text \<open>
  C8, amended. An invocation of \<open>sendInteraction\<close> issues the POST and records nothing:
  the state only gains the POST in flight. When the answer comes and the POST succeeded,
  the entry of that video in the \<open>userInteractions\<close> of that moment is set to the \<open>liked\<close>
  and the \<open>watchedPercent\<close> the invocation was called with (the progress unrounded, where
  the request carries it rounded), and nothing else changes; when the POST failed, the
  state stays as it is.
\<close>

theorem sendInteraction_state:
  "fst (sendInteraction v l w s) =
      s\<lparr>in_flight := in_flight s @
           [\<lparr>p_videoId = v, p_liked = l, p_watchedPercent = w,
             p_body = interaction_body (user s) v l w\<rparr>]\<rparr>
   \<and> userInteractions (fst (sendInteraction v l w s)) = userInteractions s
   \<and> (post_interaction a (interaction_body (user s) v l w) \<longrightarrow>
        interaction_answered a (last (in_flight (fst (sendInteraction v l w s)))) t =
          t\<lparr>userInteractions := (userInteractions t)(v \<mapsto> \<lparr>liked = l, watchedPercent = w\<rparr>)\<rparr>)
   \<and> (\<not> post_interaction a (interaction_body (user s) v l w) \<longrightarrow>
        interaction_answered a (last (in_flight (fst (sendInteraction v l w s)))) t = t)"
  by (simp add: sendInteraction_def interaction_answered_def Let_def)

theorem sendInteraction_state_witness:
  "post_interaction accepting_api (interaction_body (user feed_at_67) 7 1 (Num (67 / 2)))
   \<and> \<not> post_interaction failing_api (interaction_body (user feed_at_67) 7 1 (Num (67 / 2)))
   \<and> userInteractions (fst (sendInteraction 7 1 (Num (67 / 2)) feed_at_67)) 7
       = Some \<lparr>liked = 0, watchedPercent = Num 0\<rparr>
   \<and> userInteractions (interaction_answered accepting_api
         (last (in_flight (fst (sendInteraction 7 1 (Num (67 / 2)) feed_at_67))))
         (fst (sendInteraction 7 1 (Num (67 / 2)) feed_at_67))) 7
       = Some \<lparr>liked = 1, watchedPercent = Num (67 / 2)\<rparr>
   \<and> userInteractions (interaction_answered failing_api
         (last (in_flight (fst (sendInteraction 7 1 (Num (67 / 2)) feed_at_67))))
         (fst (sendInteraction 7 1 (Num (67 / 2)) feed_at_67))) 7
       = Some \<lparr>liked = 0, watchedPercent = Num 0\<rparr>"
proof -
  let ?s1 = "fst (sendInteraction 7 1 (Num (67 / 2)) feed_at_67)"
  have ok: "post_interaction accepting_api (interaction_body (user feed_at_67) 7 1 (Num (67 / 2)))"
    by (simp add: accepting_api_def)
  have no: "\<not> post_interaction failing_api (interaction_body (user feed_at_67) 7 1 (Num (67 / 2)))"
    by (simp add: failing_api_def)
  have old: "userInteractions feed_at_67 7 = Some \<lparr>liked = 0, watchedPercent = Num 0\<rparr>"
    by (simp add: feed_at_67_def updateProgress_def Let_def current_video_def feed_state_def
          initial_state_def)
  note yes = sendInteraction_state [of 7 1 "Num (67 / 2)" feed_at_67 accepting_api ?s1]
  note nay = sendInteraction_state [of 7 1 "Num (67 / 2)" feed_at_67 failing_api ?s1]
  from yes old have e1: "userInteractions ?s1 7 = Some \<lparr>liked = 0, watchedPercent = Num 0\<rparr>"
    by simp
  from yes ok have "interaction_answered accepting_api (last (in_flight ?s1)) ?s1 =
      ?s1\<lparr>userInteractions := (userInteractions ?s1)
             (7 \<mapsto> \<lparr>liked = 1, watchedPercent = Num (67 / 2)\<rparr>)\<rparr>"
    by blast
  then have e2: "userInteractions (interaction_answered accepting_api (last (in_flight ?s1)) ?s1) 7
       = Some \<lparr>liked = 1, watchedPercent = Num (67 / 2)\<rparr>"
    by simp
  from nay no have "interaction_answered failing_api (last (in_flight ?s1)) ?s1 = ?s1"
    by blast
  with e1 have e3: "userInteractions (interaction_answered failing_api (last (in_flight ?s1)) ?s1) 7
       = Some \<lparr>liked = 0, watchedPercent = Num 0\<rparr>"
    by simp
  from ok no e1 e2 e3 show ?thesis by (intro conjI)
qed

lemma fetch_videos:
  "videos (fst (fetchRecommendations a u alg s)) =
     (case get_recommend a (recommend_url (case alg of None \<Rightarrow> ''hybrid'' | Some x \<Rightarrow> x) (userId_of u)) of
        None \<Rightarrow> videos s
      | Some response \<Rightarrow> videos s @ map (video_of_recommendation a response) (recommendations response))"
  by (simp add: fetchRecommendations_def Let_def split: option.splits)

lemma video_of_recommendation_keeps:
  "idv (video_of_recommendation a response r) = videoId r
   \<and> vscore (video_of_recommendation a response r) = score r
   \<and> vreason (video_of_recommendation a response r) = reason r"
  by (simp add: video_of_recommendation_def split: option.splits)

lemma video_of_recommendation_fallback:
  "get_stats a (stats_url (videoId r)) = None \<Longrightarrow>
     likes (video_of_recommendation a response r) = 0
   \<and> comments (video_of_recommendation a response r) = 0
   \<and> shares (video_of_recommendation a response r) = 0
   \<and> views (video_of_recommendation a response r) = 0
   \<and> avgWatchPercent (video_of_recommendation a response r) = 0
   \<and> completionRate (video_of_recommendation a response r) = 0"
  by (simp add: video_of_recommendation_def)

text \<open>
  C9. When the recommend request resolves, \<open>fetchRecommendations\<close> appends one video
  object per entry of \<open>recommendations\<close>, in order, each with the entry's \<open>videoId\<close>,
  \<open>score\<close> and \<open>reason\<close>; an entry whose stats request fails is kept, with \<open>likes\<close>,
  \<open>comments\<close>, \<open>shares\<close>, \<open>views\<close>, \<open>avgWatchPercent\<close> and \<open>completionRate\<close> all 0.
\<close>

theorem fetchRecommendations_videos:
  assumes "get_recommend a (recommend_url (case alg of None \<Rightarrow> ''hybrid'' | Some x \<Rightarrow> x) (userId_of u))
             = Some response"
  shows "\<exists>videoObjects.
       videos (fst (fetchRecommendations a u alg s)) = videos s @ videoObjects
     \<and> length videoObjects = length (recommendations response)
     \<and> (\<forall>i < length (recommendations response).
           idv (videoObjects ! i) = videoId (recommendations response ! i)
         \<and> vscore (videoObjects ! i) = score (recommendations response ! i)
         \<and> vreason (videoObjects ! i) = reason (recommendations response ! i)
         \<and> (get_stats a (stats_url (videoId (recommendations response ! i))) = None \<longrightarrow>
               likes (videoObjects ! i) = 0 \<and> comments (videoObjects ! i) = 0
             \<and> shares (videoObjects ! i) = 0 \<and> views (videoObjects ! i) = 0
             \<and> avgWatchPercent (videoObjects ! i) = 0
             \<and> completionRate (videoObjects ! i) = 0))"
proof (intro exI conjI allI impI)
  show "videos (fst (fetchRecommendations a u alg s)) =
          videos s @ map (video_of_recommendation a response) (recommendations response)"
    using assms by (simp add: fetch_videos)
qed (simp_all add: video_of_recommendation_keeps video_of_recommendation_fallback)

theorem fetchRecommendations_videos_witness:
  "get_recommend demo_api (recommend_url ''bandit'' 3) = Some demo_response
   \<and> get_stats demo_api (stats_url 105) = None
   \<and> (\<exists>videoObjects.
        videos (fst (fetchRecommendations demo_api (Some \<lparr>user_id = 3, username = ''demo_user''\<rparr>)
                       (Some ''bandit'') one_video_state)) = story 7 # videoObjects
      \<and> length videoObjects = 2
      \<and> idv (videoObjects ! 0) = 105 \<and> vscore (videoObjects ! 0) = 1 / 2
      \<and> vreason (videoObjects ! 0) = ''Exploitation'' \<and> likes (videoObjects ! 0) = 0
      \<and> views (videoObjects ! 0) = 0 \<and> completionRate (videoObjects ! 0) = 0)"
proof -
  let ?u = "Some \<lparr>user_id = 3, username = ''demo_user''\<rparr>"
  have g: "get_recommend demo_api
             (recommend_url (case Some ''bandit'' of None \<Rightarrow> ''hybrid'' | Some x \<Rightarrow> x)
                (userId_of ?u)) = Some demo_response"
    by (simp add: demo_api_def)
  have f: "get_stats demo_api (stats_url 105) = None"
    by (simp add: demo_api_def stats_url_def string_of_int_def digit_def)
  have r0: "recommendations demo_response ! 0
              = \<lparr>videoId = 105, score = 1 / 2, reason = ''Exploitation''\<rparr>"
    and len: "length (recommendations demo_response) = 2"
    by (simp_all add: demo_response_def)
  from fetchRecommendations_videos [OF g, of one_video_state]
  obtain videoObjects where
    v: "videos (fst (fetchRecommendations demo_api ?u (Some ''bandit'') one_video_state))
          = videos one_video_state @ videoObjects"
    and l: "length videoObjects = length (recommendations demo_response)"
    and a: "\<forall>i < length (recommendations demo_response).
           idv (videoObjects ! i) = videoId (recommendations demo_response ! i)
         \<and> vscore (videoObjects ! i) = score (recommendations demo_response ! i)
         \<and> vreason (videoObjects ! i) = reason (recommendations demo_response ! i)
         \<and> (get_stats demo_api (stats_url (videoId (recommendations demo_response ! i))) = None \<longrightarrow>
               likes (videoObjects ! i) = 0 \<and> comments (videoObjects ! i) = 0
             \<and> shares (videoObjects ! i) = 0 \<and> views (videoObjects ! i) = 0
             \<and> avgWatchPercent (videoObjects ! i) = 0
             \<and> completionRate (videoObjects ! i) = 0)"
    by blast
  from a len have a0:
    "idv (videoObjects ! 0) = videoId (recommendations demo_response ! 0)
         \<and> vscore (videoObjects ! 0) = score (recommendations demo_response ! 0)
         \<and> vreason (videoObjects ! 0) = reason (recommendations demo_response ! 0)
         \<and> (get_stats demo_api (stats_url (videoId (recommendations demo_response ! 0))) = None \<longrightarrow>
               likes (videoObjects ! 0) = 0 \<and> comments (videoObjects ! 0) = 0
             \<and> shares (videoObjects ! 0) = 0 \<and> views (videoObjects ! 0) = 0
             \<and> avgWatchPercent (videoObjects ! 0) = 0
             \<and> completionRate (videoObjects ! 0) = 0)"
    by simp
  have v': "videos (fst (fetchRecommendations demo_api ?u (Some ''bandit'') one_video_state))
          = story 7 # videoObjects"
    using v by (simp add: one_video_state_def initial_state_def)
  have g': "get_recommend demo_api (recommend_url ''bandit'' 3) = Some demo_response"
    by (simp add: demo_api_def)
  from a0 f have "idv (videoObjects ! 0) = 105 \<and> vscore (videoObjects ! 0) = 1 / 2
      \<and> vreason (videoObjects ! 0) = ''Exploitation'' \<and> likes (videoObjects ! 0) = 0
      \<and> views (videoObjects ! 0) = 0 \<and> completionRate (videoObjects ! 0) = 0"
    by (simp add: r0)
  then have "videos (fst (fetchRecommendations demo_api ?u (Some ''bandit'') one_video_state))
          = story 7 # videoObjects
      \<and> length videoObjects = 2
      \<and> idv (videoObjects ! 0) = 105 \<and> vscore (videoObjects ! 0) = 1 / 2
      \<and> vreason (videoObjects ! 0) = ''Exploitation'' \<and> likes (videoObjects ! 0) = 0
      \<and> views (videoObjects ! 0) = 0 \<and> completionRate (videoObjects ! 0) = 0"
    using v' l len by simp
  then have "\<exists>videoObjects.
        videos (fst (fetchRecommendations demo_api ?u (Some ''bandit'') one_video_state))
          = story 7 # videoObjects
      \<and> length videoObjects = 2
      \<and> idv (videoObjects ! 0) = 105 \<and> vscore (videoObjects ! 0) = 1 / 2
      \<and> vreason (videoObjects ! 0) = ''Exploitation'' \<and> likes (videoObjects ! 0) = 0
      \<and> views (videoObjects ! 0) = 0 \<and> completionRate (videoObjects ! 0) = 0"
    by (rule exI)
  with g' f show ?thesis by (intro conjI)
qed

lemma stats_url_not_recommend: "take 11 (stats_url v) \<noteq> ''/recommend/''"
  by (simp add: stats_url_def)

lemma good_Post: "good_request (Post url body)"
  by (simp add: good_request_def)

lemma good_stats: "good_request (Get (stats_url v))"
  by (simp add: good_request_def stats_url_not_recommend)

lemma good_recommend: "alg \<in> set algorithm_options \<Longrightarrow> good_request (Get (recommend_url alg uid))"
  unfolding good_request_def algorithm_options_def by auto

lemma fetch_fields:
  "selectedAlgorithm (fst (fetchRecommendations a u alg s)) = selectedAlgorithm s"
  "timers (fst (fetchRecommendations a u alg s)) = timers s"
  "userInteractions (fst (fetchRecommendations a u alg s)) = userInteractions s"
  by (simp_all add: fetchRecommendations_def Let_def split: option.splits)

lemma fetch_requests_good:
  "alg \<in> set algorithm_options \<Longrightarrow>
     \<forall>r \<in> set (snd (fetchRecommendations a u (Some alg) s)). good_request r"
  by (auto simp: fetchRecommendations_def Let_def good_stats good_recommend split: option.splits)

lemma sendInteraction_fields:
  "selectedAlgorithm (fst (sendInteraction v l w s)) = selectedAlgorithm s"
  "timers (fst (sendInteraction v l w s)) = timers s"
  "videos (fst (sendInteraction v l w s)) = videos s"
  "currentVideoIndex (fst (sendInteraction v l w s)) = currentVideoIndex s"
  "user (fst (sendInteraction v l w s)) = user s"
  "videoProgress (fst (sendInteraction v l w s)) = videoProgress s"
  by (simp_all add: sendInteraction_def Let_def)

lemma interaction_answered_fields:
  "selectedAlgorithm (interaction_answered a p s) = selectedAlgorithm s"
  "timers (interaction_answered a p s) = timers s"
  by (simp_all add: interaction_answered_def)

lemma handleLike_fields:
  "selectedAlgorithm (fst (handleLike s)) = selectedAlgorithm s"
  "timers (fst (handleLike s)) = timers s"
  "videos (fst (handleLike s)) = videos s"
  "currentVideoIndex (fst (handleLike s)) = currentVideoIndex s"
  by (simp_all add: handleLike_def Let_def sendInteraction_fields split: option.splits)

lemma handleDislike_fields:
  "selectedAlgorithm (fst (handleDislike s)) = selectedAlgorithm s"
  "timers (fst (handleDislike s)) = timers s @ (case current_video s of None \<Rightarrow> [] | Some v \<Rightarrow> [closure_of s])"
  "videos (fst (handleDislike s)) = videos s"
  "currentVideoIndex (fst (handleDislike s)) = currentVideoIndex s"
  by (simp_all add: handleDislike_def Let_def sendInteraction_def split: option.splits prod.splits)

lemma handler_requests_good:
  "\<forall>r \<in> set (snd (handleLike s)). good_request r"
  "\<forall>r \<in> set (snd (handleDislike s)). good_request r"
  by (cases "current_video s"; simp add: handleLike_requests handleDislike_requests good_Post)+

lemma nextVideo_inv:
  assumes "algorithm_inv s" "c_selectedAlgorithm c \<in> set algorithm_options"
  shows "algorithm_inv (fst (nextVideo a c s)) \<and> (\<forall>r \<in> set (snd (nextVideo a c s)). good_request r)"
  using assms fetch_requests_good [of "c_selectedAlgorithm c" a "c_user c" s]
  by (simp add: nextVideo_def algorithm_inv_def fetch_fields)

lemma initial_fetch_inv:
  assumes "algorithm_inv s"
  shows "algorithm_inv (fst (initial_fetch_effect a s))
       \<and> (\<forall>r \<in> set (snd (initial_fetch_effect a s)). good_request r)"
  using assms fetch_requests_good [of "selectedAlgorithm s" a "user s"
      "s\<lparr>videos := [], currentVideoIndex := 0, userInteractions := Map.empty\<rparr>"]
  by (simp add: initial_fetch_effect_def algorithm_inv_def fetch_fields)

lemma step_inv:
  assumes "algorithm_inv s"
  shows "algorithm_inv (fst (step a ev s)) \<and> (\<forall>r \<in> set (snd (step a ev s)). good_request r)"
proof (cases ev)
  case (Login u)
  have "algorithm_inv (handleLogin u s)"
    using assms by (simp add: algorithm_inv_def handleLogin_def)
  then show ?thesis using Login assms initial_fetch_inv [of "handleLogin u s" a] by simp
next
  case Logout
  then show ?thesis using assms by (simp add: algorithm_inv_def handleLogout_def)
next
  case (AlgorithmChange k)
  show ?thesis
  proof (cases "user s = None \<or> \<not> k < length algorithm_options
         \<or> algorithm_options ! k = selectedAlgorithm s")
    case True
    then show ?thesis using AlgorithmChange assms by auto
  next
    case False
    then have "algorithm_inv (s\<lparr>selectedAlgorithm := algorithm_options ! k\<rparr>)"
      using assms by (simp add: algorithm_inv_def)
    moreover have "step a ev s =
        initial_fetch_effect a (s\<lparr>selectedAlgorithm := algorithm_options ! k\<rparr>)"
      using False AlgorithmChange by auto
    ultimately show ?thesis
      using initial_fetch_inv [of "s\<lparr>selectedAlgorithm := algorithm_options ! k\<rparr>" a]
      by simp
  qed
next
  case Like
  then show ?thesis using assms handler_requests_good(1) [of s]
    by (simp add: algorithm_inv_def handleLike_fields)
next
  case Dislike
  then show ?thesis using assms handler_requests_good(2) [of s]
    by (auto simp: algorithm_inv_def handleDislike_fields closure_of_def split: option.splits)
next
  case Next
  have "c_selectedAlgorithm (closure_of s) \<in> set algorithm_options"
    using assms by (simp add: closure_of_def algorithm_inv_def)
  then show ?thesis using Next assms nextVideo_inv [of s "closure_of s" a] by simp
next
  case Prev
  then show ?thesis using assms by (simp add: algorithm_inv_def prevVideo_def)
next
  case Refresh
  then show ?thesis
    using assms fetch_requests_good [of "selectedAlgorithm s" a "user s"
      "s\<lparr>videos := [], currentVideoIndex := 0\<rparr>"]
    by (simp add: algorithm_inv_def refreshFeed_def fetch_fields)
next
  case (TimeUpdate v)
  then show ?thesis using assms by (simp add: algorithm_inv_def updateProgress_def Let_def)
next
  case TimerFires
  show ?thesis
  proof (cases "timers s")
    case Nil
    then show ?thesis using TimerFires assms by simp
  next
    case (Cons c cs)
    then have "algorithm_inv (s\<lparr>timers := cs\<rparr>)" "c_selectedAlgorithm c \<in> set algorithm_options"
      using assms by (simp_all add: algorithm_inv_def)
    then show ?thesis using TimerFires Cons nextVideo_inv [of "s\<lparr>timers := cs\<rparr>" c a] by simp
  qed
next
  case (PostAnswered k)
  then show ?thesis using assms
    by (simp add: algorithm_inv_def interaction_answered_fields)
next
  case LoadMore
  then show ?thesis
    using assms fetch_requests_good [of "selectedAlgorithm s" a "user s" s]
    by (simp add: algorithm_inv_def load_more_effect_def Let_def fetch_fields)
qed

lemma run_inv:
  "algorithm_inv s \<Longrightarrow>
     algorithm_inv (fst (run evs s)) \<and> (\<forall>r \<in> set (snd (run evs s)). good_request r)"
proof (induction evs arbitrary: s)
  case Nil
  then show ?case by simp
next
  case (Cons p evs)
  obtain a ev where p: "p = (a, ev)" by (cases p)
  have st: "algorithm_inv (fst (step a ev s))" "\<forall>r \<in> set (snd (step a ev s)). good_request r"
    using step_inv [OF Cons.prems, of a ev] by simp_all
  from Cons.IH [OF st(1)] st(2) show ?case
    by (auto simp: p split: prod.splits)
qed

lemma initial_inv: "algorithm_inv initial_state"
  by (simp add: algorithm_inv_def initial_state_def algorithm_options_def)

text \<open>
  C5. \<open>selectedAlgorithm\<close> starts as \<open>"hybrid"\<close> and, after any run of the component, is
  one of \<open>twoTower\<close>, \<open>hybrid\<close>, \<open>bandit\<close>. Every request of a run to a path under
  \<open>/recommend/\<close> has the form \<open>/recommend/{algorithm}/{userId}\<close> with the algorithm one
  of the three: every call of \<open>fetchRecommendations\<close> passes the \<open>selectedAlgorithm\<close> of
  some render. Called without an argument, \<open>fetchRecommendations\<close> asks for \<open>hybrid\<close>.
\<close>

theorem recommend_requests_algorithm:
  "selectedAlgorithm initial_state = ''hybrid''
   \<and> selectedAlgorithm (fst (run evs initial_state)) \<in> {''twoTower'', ''hybrid'', ''bandit''}
   \<and> (\<forall>r \<in> set (snd (run evs initial_state)). \<forall>url.
        r = Get url \<and> take 11 url = ''/recommend/'' \<longrightarrow>
        (\<exists>alg uid. alg \<in> {''twoTower'', ''hybrid'', ''bandit''} \<and> url = recommend_url alg uid))
   \<and> hd (snd (fetchRecommendations a u None s)) = Get (recommend_url ''hybrid'' (userId_of u))"
proof (intro conjI)
  show "selectedAlgorithm initial_state = ''hybrid''"
    by (simp add: initial_state_def)
  show "selectedAlgorithm (fst (run evs initial_state)) \<in> {''twoTower'', ''hybrid'', ''bandit''}"
    using run_inv [OF initial_inv, of evs]
    by (auto simp: algorithm_inv_def algorithm_options_def)
  show "\<forall>r \<in> set (snd (run evs initial_state)). \<forall>url.
        r = Get url \<and> take 11 url = ''/recommend/'' \<longrightarrow>
        (\<exists>alg uid. alg \<in> {''twoTower'', ''hybrid'', ''bandit''} \<and> url = recommend_url alg uid)"
    using run_inv [OF initial_inv, of evs] by (simp add: good_request_def)
  show "hd (snd (fetchRecommendations a u None s)) = Get (recommend_url ''hybrid'' (userId_of u))"
    by (simp add: fetchRecommendations_def Let_def split: option.splits)
qed

theorem recommend_requests_algorithm_witness:
  "snd (run [(demo_api, Login \<lparr>user_id = 3, username = ''demo_user''\<rparr>),
             (demo_api, AlgorithmChange 2)] initial_state)
     = [Get ''/recommend/hybrid/3'', Get ''/video/105/stats'', Get ''/video/110/stats'',
        Get ''/recommend/bandit/3'', Get ''/video/105/stats'', Get ''/video/110/stats'']
   \<and> (\<exists>alg uid. alg \<in> {''twoTower'', ''hybrid'', ''bandit''}
         \<and> ''/recommend/bandit/3'' = recommend_url alg uid)"
proof
  let ?evs = "[(demo_api, Login \<lparr>user_id = 3, username = ''demo_user''\<rparr>),
               (demo_api, AlgorithmChange 2)]"
  show log: "snd (run ?evs initial_state)
     = [Get ''/recommend/hybrid/3'', Get ''/video/105/stats'', Get ''/video/110/stats'',
        Get ''/recommend/bandit/3'', Get ''/video/105/stats'', Get ''/video/110/stats'']"
    by (simp add: demo_api_def demo_response_def initial_state_def initial_fetch_effect_def
      handleLogin_def fetchRecommendations_def algorithm_options_def recommend_url_def
      stats_url_def userId_of_def string_of_int_def digit_def Let_def)
  have m: "Get ''/recommend/bandit/3'' \<in> set (snd (run ?evs initial_state))"
    unfolding log by simp
  have p: "Get ''/recommend/bandit/3'' = Get ''/recommend/bandit/3''
             \<and> take 11 ''/recommend/bandit/3'' = ''/recommend/''"
    by simp
  note all = recommend_requests_algorithm [of ?evs demo_api None initial_state,
      THEN conjunct2, THEN conjunct2, THEN conjunct1]
  from bspec [OF all m] have "Get ''/recommend/bandit/3'' = Get ''/recommend/bandit/3''
             \<and> take 11 ''/recommend/bandit/3'' = ''/recommend/'' \<longrightarrow>
        (\<exists>alg uid. alg \<in> {''twoTower'', ''hybrid'', ''bandit''}
           \<and> ''/recommend/bandit/3'' = recommend_url alg uid)"
    by (rule spec)
  from this p show "\<exists>alg uid. alg \<in> {''twoTower'', ''hybrid'', ''bandit''}
         \<and> ''/recommend/bandit/3'' = recommend_url alg uid"
    by (rule mp)
qed




section \<open>Properties of the engine\<close>

lemma dot_simps [simp]:
  "dot [] b = 0" "dot a [] = 0" "dot (x # xs) (y # ys) = x * y + dot xs ys"
  by (simp_all add: dot_def)

lemma dot_self_nonneg: "0 \<le> dot a a"
  by (induction a) simp_all

lemma four_mult_le:
  fixes p q :: real
  shows "4 * p * q \<le> (p + q)\<^sup>2"
proof -
  have "0 \<le> (p - q)\<^sup>2" by simp
  then have "0 \<le> p * p - 2 * p * q + q * q" by (simp add: power2_eq_square algebra_simps)
  then show ?thesis by (simp add: power2_eq_square algebra_simps)
qed

lemma cross_term:
  fixes x y s A B :: real
  assumes "s\<^sup>2 \<le> A * B" "0 \<le> A" "0 \<le> B"
  shows "2 * (x * y) * s \<le> x\<^sup>2 * B + y\<^sup>2 * A"
proof -
  define p where "p = x\<^sup>2 * B"
  define q where "q = y\<^sup>2 * A"
  define c where "c = x\<^sup>2 * y\<^sup>2"
  have c0: "0 \<le> c" by (simp add: c_def)
  have pq: "0 \<le> p + q" using assms by (simp add: p_def q_def)
  have "(2 * (x * y) * s)\<^sup>2 = 4 * c * s\<^sup>2"
    by (simp add: power_mult_distrib c_def)
  also have "\<dots> \<le> 4 * c * (A * B)"
    using assms(1) c0 by (simp add: mult_left_mono)
  also have "\<dots> = 4 * p * q" by (simp add: p_def q_def c_def)
  also have "\<dots> \<le> (p + q)\<^sup>2"
    by (rule four_mult_le)
  finally have "(2 * (x * y) * s)\<^sup>2 \<le> (p + q)\<^sup>2" .
  then have "2 * (x * y) * s \<le> p + q"
    using pq by (rule power2_le_imp_le)
  then show ?thesis by (simp add: p_def q_def)
qed
lemma cauchy_schwarz: "(dot a b)\<^sup>2 \<le> dot a a * dot b b"
proof (induction a arbitrary: b)
  case Nil
  then show ?case by simp
next
  case (Cons x xs)
  show ?case
  proof (cases b)
    case Nil
    then show ?thesis by (simp add: dot_self_nonneg)
  next
    case (Cons y ys)
    have "(x * y + dot xs ys)\<^sup>2 = x\<^sup>2 * y\<^sup>2 + 2 * (x * y) * dot xs ys + (dot xs ys)\<^sup>2"
      by (simp add: power2_eq_square algebra_simps)
    also have "\<dots> \<le> x\<^sup>2 * y\<^sup>2 + (x\<^sup>2 * dot ys ys + y\<^sup>2 * dot xs xs) + dot xs xs * dot ys ys"
      using cross_term [OF Cons.IH [of ys] dot_self_nonneg dot_self_nonneg, of x y] Cons.IH [of ys]
      by simp
    also have "\<dots> = (x * x + dot xs xs) * (y * y + dot ys ys)"
      by (simp add: power2_eq_square algebra_simps)
    finally show ?thesis using Cons by simp
  qed
qed

lemma dot_le_norms: "dot a b \<le> vnorm a * vnorm b"
proof -
  have "dot a b \<le> \<bar>dot a b\<bar>" by simp
  also have "\<dots> = sqrt ((dot a b)\<^sup>2)" by simp
  also have "\<dots> \<le> sqrt (dot a a * dot b b)"
    using cauchy_schwarz by (simp only: real_sqrt_le_iff)
  also have "\<dots> = vnorm a * vnorm b"
    by (simp add: vnorm_def real_sqrt_mult)
  finally show ?thesis .
qed

lemma dot_nonneg: "nonneg a \<Longrightarrow> nonneg b \<Longrightarrow> 0 \<le> dot a b"
proof (induction a arbitrary: b)
  case Nil
  then show ?case by simp
next
  case (Cons x xs)
  then show ?case by (cases b) (simp_all add: nonneg_def)
qed

lemma vnorm_nonneg: "0 \<le> vnorm a"
  by (simp add: vnorm_def dot_self_nonneg)

lemma similarity_le_1: "similarity a b \<le> 1"
proof (cases "vnorm a = 0 \<or> vnorm b = 0")
  case True
  then show ?thesis by (simp add: similarity_def)
next
  case False
  then have "0 < vnorm a * vnorm b"
    using vnorm_nonneg [of a] vnorm_nonneg [of b] by (simp add: less_le)
  then show ?thesis using False dot_le_norms [of a b]
    by (simp add: similarity_def)
qed

lemma similarity_ge_0: "nonneg a \<Longrightarrow> nonneg b \<Longrightarrow> 0 \<le> similarity a b"
  using dot_nonneg [of a b] vnorm_nonneg [of a] vnorm_nonneg [of b]
  by (simp add: similarity_def)


lemma weight_nonneg: "valid_interaction i \<Longrightarrow> 0 \<le> weight i"
  by (simp add: valid_interaction_def weight_def)

lemma nonneg_vscale: "0 \<le> c \<Longrightarrow> nonneg v \<Longrightarrow> nonneg (vscale c v)"
  by (simp add: nonneg_def vscale_def)

lemma nonneg_vadd: "nonneg a \<Longrightarrow> nonneg b \<Longrightarrow> nonneg (vadd a b)"
  by (auto simp: nonneg_def vadd_def dest!: set_zip_leftD set_zip_rightD intro!: add_nonneg_nonneg
      elim!: in_set_zipE)

lemma nonneg_renormalize: "nonneg v \<Longrightarrow> nonneg (renormalize v)"
  using vnorm_nonneg [of v] by (simp add: renormalize_def nonneg_vscale)

lemma nonneg_weighted_sum:
  assumes "\<forall>v. nonneg (cv v)" "\<forall>i \<in> set h. valid_interaction i"
  shows "nonneg (foldr (\<lambda>i acc. vadd (vscale (weight i) (cv (i_videoId i))) acc) h (replicate dims 0))"
  using assms(2)
proof (induction h)
  case Nil
  then show ?case by (simp add: nonneg_def)
next
  case (Cons i h)
  then show ?case using assms(1)
    by (simp add: nonneg_vadd nonneg_vscale weight_nonneg)
qed

lemma nonneg_userEmbedding:
  assumes "\<forall>v. nonneg (cv v)" "\<forall>i \<in> set interactions. valid_interaction i"
  shows "nonneg (userEmbedding cv dims interactions uid)"
  unfolding userEmbedding_def
  by (rule nonneg_renormalize, rule nonneg_weighted_sum) (use assms in \<open>simp_all add: userHistory_def\<close>)

lemma weighted_average_bounds:
  fixes w f :: "'a \<Rightarrow> real"
  assumes "\<forall>i \<in> set h. 0 \<le> w i" "\<forall>i \<in> set h. 0 \<le> f i \<and> f i \<le> 1"
  shows "0 \<le> (\<Sum>i\<leftarrow>h. w i * f i) \<and> (\<Sum>i\<leftarrow>h. w i * f i) \<le> (\<Sum>i\<leftarrow>h. w i)"
  using assms
proof (induction h)
  case Nil
  then show ?case by simp
next
  case (Cons i h)
  have "w i * f i \<le> w i * 1"
    using Cons.prems by (intro mult_left_mono) simp_all
  moreover have "0 \<le> w i * f i" using Cons.prems by simp
  ultimately show ?case using Cons by simp
qed

lemma hybrid_score_bounds:
  assumes "\<forall>v. nonneg (cv v)" "\<forall>i \<in> set interactions. valid_interaction i"
    and "hybrid_score cv interactions uid c = Some s"
  shows "0 \<le> s \<and> s \<le> 1"
proof -
  let ?h = "userHistory interactions uid"
  let ?num = "\<Sum>i\<leftarrow>?h. weight i * itemSimilarity cv (i_videoId i) c"
  let ?total = "\<Sum>i\<leftarrow>?h. weight i"
  have w: "\<forall>i \<in> set ?h. 0 \<le> weight i"
    using assms(2) by (simp add: userHistory_def weight_nonneg)
  have f: "\<forall>i \<in> set ?h. 0 \<le> itemSimilarity cv (i_videoId i) c \<and> itemSimilarity cv (i_videoId i) c \<le> 1"
    using assms(1) by (simp add: itemSimilarity_def similarity_ge_0 similarity_le_1)
  from weighted_average_bounds [OF w f] have b: "0 \<le> ?num" "?num \<le> ?total" by simp_all
  from assms(3) have t: "?total \<noteq> 0" and s: "s = ?num / ?total"
    by (auto simp: hybrid_score_def Let_def split: if_splits)
  from b t have "0 < ?total" by simp
  with b s show ?thesis by simp
qed

lemma sqrt25: "sqrt 25 = 5"
  using real_sqrt_abs [of 5] by simp

text \<open>
  C6. Cosine similarity is 0 whenever one of the two vectors has zero norm. With content
  vectors that have no negative component and interactions in the validated ranges, the
  TwoTower score of every user and video, and every Hybrid score that is defined, lie in
  the closed interval from 0 to 1.
\<close>

theorem similarity_scores_in_unit_interval:
  assumes "\<forall>v. nonneg (cv v)" and "\<forall>i \<in> set interactions. valid_interaction i"
  shows "(vnorm vecA = 0 \<or> vnorm vecB = 0 \<longrightarrow> similarity vecA vecB = 0)
     \<and> 0 \<le> twoTower_score cv dims interactions uid vid
     \<and> twoTower_score cv dims interactions uid vid \<le> 1
     \<and> (\<forall>s. hybrid_score cv interactions uid vid = Some s \<longrightarrow> 0 \<le> s \<and> s \<le> 1)"
proof (intro conjI allI impI)
  assume "vnorm vecA = 0 \<or> vnorm vecB = 0"
  then show "similarity vecA vecB = 0" by (simp add: similarity_def)
next
  show "0 \<le> twoTower_score cv dims interactions uid vid"
    unfolding twoTower_score_def
    using assms by (intro similarity_ge_0 nonneg_userEmbedding) simp_all
next
  show "twoTower_score cv dims interactions uid vid \<le> 1"
    unfolding twoTower_score_def by (rule similarity_le_1)
next
  fix s assume "hybrid_score cv interactions uid vid = Some s"
  with assms hybrid_score_bounds [of cv interactions uid vid s] show "0 \<le> s" by simp
next
  fix s assume "hybrid_score cv interactions uid vid = Some s"
  with assms hybrid_score_bounds [of cv interactions uid vid s] show "s \<le> 1" by simp
qed

theorem similarity_scores_in_unit_interval_witness:
  "similarity [0, 0] [3, 4] = 0
   \<and> twoTower_score demo_vectors 2 demo_interactions 1 11 = 24 / 25
   \<and> hybrid_score demo_vectors demo_interactions 1 11 = Some (24 / 25)
   \<and> 0 \<le> twoTower_score demo_vectors 2 demo_interactions 1 11
   \<and> twoTower_score demo_vectors 2 demo_interactions 1 11 \<le> 1"
proof -
  have n: "\<forall>v. nonneg (demo_vectors v)"
    by (simp add: demo_vectors_def nonneg_def)
  have v: "\<forall>i \<in> set demo_interactions. valid_interaction i"
    by (simp add: demo_interactions_def valid_interaction_def)
  have z: "vnorm [0, 0] = 0" by (simp add: vnorm_def)
  have t: "twoTower_score demo_vectors 2 demo_interactions 1 11 = 24 / 25"
    by (simp add: twoTower_score_def userEmbedding_def userHistory_def demo_interactions_def
          demo_vectors_def weight_def renormalize_def vadd_def vscale_def similarity_def
          vnorm_def sqrt25 eval_nat_numeral)
  have h: "hybrid_score demo_vectors demo_interactions 1 11 = Some (24 / 25)"
    by (simp add: hybrid_score_def userHistory_def demo_interactions_def demo_vectors_def
          weight_def itemSimilarity_def similarity_def vnorm_def sqrt25)
  from similarity_scores_in_unit_interval [OF n v, of "[0, 0]" "[3, 4]" 2 1 11] z t h
  show ?thesis by simp
qed

lemma better_trans: "better a b \<Longrightarrow> better b c \<Longrightarrow> better a c"
  by (auto simp: better_def)

lemma better_total: "arm_videoId a \<noteq> arm_videoId b \<Longrightarrow> better a b \<or> better b a"
  by (auto simp: better_def)

lemma best_arm_None: "best_arm rem = None \<longleftrightarrow> rem = []"
  by (induction rem) (auto split: option.splits)

lemma best_arm_in: "best_arm rem = Some a \<Longrightarrow> a \<in> set rem"
  by (induction rem arbitrary: a) (auto split: option.splits if_splits)

lemma distinct_ids_Cons:
  assumes "distinct (map f (x # xs))" "y \<in> set xs"
  shows "f y \<noteq> f x"
proof
  assume "f y = f x"
  then have "f x \<in> f ` set xs" using assms(2) by (metis imageI)
  then show False using assms(1) by simp
qed

lemma best_arm_best:
  "distinct (map arm_videoId rem) \<Longrightarrow> best_arm rem = Some a \<Longrightarrow> b \<in> set rem \<Longrightarrow> b \<noteq> a
     \<Longrightarrow> better a b"
proof (induction rem arbitrary: a)
  case Nil
  then show ?case by simp
next
  case (Cons x rest)
  show ?case
  proof (cases "best_arm rest")
    case None
    then have "rest = []" by (simp add: best_arm_None)
    with Cons.prems show ?thesis by simp
  next
    case (Some m)
    have m_in: "m \<in> set rest" using Some by (rule best_arm_in)
    have ids: "arm_videoId m \<noteq> arm_videoId x" using Cons.prems(1) m_in by (rule distinct_ids_Cons)
    have d: "distinct (map arm_videoId rest)" using Cons.prems(1) by simp
    show ?thesis
    proof (cases "better m x")
      case True
      then have a: "a = m" using Cons.prems(2) Some by simp
      show ?thesis
      proof (cases "b = x")
        case True
        with \<open>better m x\<close> a show ?thesis by simp
      next
        case False
        then have "b \<in> set rest" using Cons.prems(3) by simp
        from Cons.IH [OF d Some this] Cons.prems(4) a show ?thesis by simp
      qed
    next
      case False
      then have a: "a = x" using Cons.prems(2) Some by simp
      have xm: "better x m" using False better_total [OF ids] by blast
      have b_in: "b \<in> set rest" using Cons.prems(3,4) a by simp
      show ?thesis
      proof (cases "b = m")
        case True
        with xm a show ?thesis by simp
      next
        case False
        from Cons.IH [OF d Some b_in False] have "better m b" .
        with xm a show ?thesis using better_trans by blast
      qed
    qed
  qed
qed

lemma unselect_facts:
  "set (unselect a rem) \<subseteq> set rem"
  "distinct (map arm_videoId rem) \<Longrightarrow> distinct (map arm_videoId (unselect a rem))"
  "a \<notin> set (unselect a rem)"
  by (auto simp: unselect_def distinct_map_filter)

lemma unselect_set:
  "distinct (map arm_videoId rem) \<Longrightarrow> a \<in> set rem \<Longrightarrow> set (unselect a rem) = set rem - {a}"
  by (auto simp: unselect_def distinct_map inj_on_def)

lemma unselect_length:
  "distinct (map arm_videoId rem) \<Longrightarrow> a \<in> set rem \<Longrightarrow> Suc (length (unselect a rem)) = length rem"
proof (induction rem)
  case Nil
  then show ?case by simp
next
  case (Cons x rem)
  show ?case
  proof (cases "x = a")
    case True
    then have "\<forall>b \<in> set rem. arm_videoId b \<noteq> arm_videoId a"
      using Cons.prems(1) distinct_ids_Cons [of arm_videoId x rem] by blast
    then have "filter (\<lambda>b. arm_videoId b \<noteq> arm_videoId a) rem = rem"
      by (simp add: filter_id_conv)
    with True show ?thesis by (simp add: unselect_def)
  next
    case False
    then have "a \<in> set rem" using Cons.prems(2) by simp
    moreover have "arm_videoId x \<noteq> arm_videoId a"
      using distinct_ids_Cons [OF Cons.prems(1) \<open>a \<in> set rem\<close>] by simp
    ultimately show ?thesis using Cons by (simp add: unselect_def)
  qed
qed

lemma top_arms_props:
  "distinct (map arm_videoId rem) \<Longrightarrow>
     length (top_arms k rem) = min k (length rem)
   \<and> set (top_arms k rem) \<subseteq> set rem
   \<and> distinct (top_arms k rem)
   \<and> sorted_wrt better (top_arms k rem)
   \<and> (\<forall>a \<in> set (top_arms k rem). \<forall>b \<in> set rem - set (top_arms k rem). better a b)"
proof (induction k arbitrary: rem)
  case 0
  then show ?case by simp
next
  case (Suc k)
  show ?case
  proof (cases "best_arm rem")
    case None
    then show ?thesis by (simp add: best_arm_None)
  next
    case (Some a)
    let ?rest = "unselect a rem"
    have a_in: "a \<in> set rem" using Some by (rule best_arm_in)
    have d: "distinct (map arm_videoId ?rest)" using Suc.prems by (rule unselect_facts(2))
    have rs: "set ?rest = set rem - {a}" using Suc.prems a_in by (rule unselect_set)
    have len: "Suc (length ?rest) = length rem" using Suc.prems a_in by (rule unselect_length)
    have best: "\<And>b. b \<in> set rem \<Longrightarrow> b \<noteq> a \<Longrightarrow> better a b"
      using best_arm_best [OF Suc.prems Some] by blast
    from Suc.IH [OF d] have
      ih1: "length (top_arms k ?rest) = min k (length ?rest)" and
      ih2: "set (top_arms k ?rest) \<subseteq> set ?rest" and
      ih3: "distinct (top_arms k ?rest)" and
      ih4: "sorted_wrt better (top_arms k ?rest)" and
      ih5: "\<forall>x \<in> set (top_arms k ?rest). \<forall>b \<in> set ?rest - set (top_arms k ?rest). better x b"
      by simp_all
    have t: "top_arms (Suc k) rem = a # top_arms k ?rest" using Some by simp
    have c1: "length (top_arms (Suc k) rem) = min (Suc k) (length rem)"
      using ih1 len unfolding t by simp
    have c2: "set (top_arms (Suc k) rem) \<subseteq> set rem"
      using ih2 rs a_in unfolding t by auto
    have c3: "distinct (top_arms (Suc k) rem)"
      using ih2 ih3 rs unfolding t by auto
    have c4: "sorted_wrt better (top_arms (Suc k) rem)"
      using ih2 ih4 rs best unfolding t by auto
    have c5: "\<forall>x \<in> set (top_arms (Suc k) rem). \<forall>b \<in> set rem - set (top_arms (Suc k) rem). better x b"
      using ih5 rs best unfolding t by auto
    from c1 c2 c3 c4 c5 show ?thesis by blast
  qed
qed

lemma exploit_loop:
  "\<forall>i. \<not> fst (rnd i) < epsilon \<Longrightarrow>
     map videoId (choose_loop epsilon rnd i k e rem) = map arm_videoId (top_arms k rem)
   \<and> map score (choose_loop epsilon rnd i k e rem) = map averageReward (top_arms k rem)"
proof (induction k arbitrary: i e rem)
  case 0
  then show ?case by simp
next
  case (Suc k)
  show ?case
  proof (cases "best_arm rem")
    case None
    then show ?thesis by (simp add: best_arm_None)
  next
    case (Some a)
    then have "rem \<noteq> []" by auto
    with Some Suc.prems Suc.IH [OF Suc.prems, of "Suc i" True "unselect a rem"]
    show ?thesis by simp
  qed
qed

lemma exploit_loop_deterministic:
  "\<forall>i. \<not> fst (rnd i) < epsilon \<Longrightarrow> \<forall>i. \<not> fst (rnd' i) < epsilon \<Longrightarrow>
     choose_loop epsilon rnd i k e rem = choose_loop epsilon rnd' i' k e rem"
proof (induction k arbitrary: i i' e rem)
  case 0
  then show ?case by simp
next
  case (Suc k)
  show ?case
  proof (cases "best_arm rem")
    case None
    then show ?thesis by (simp add: best_arm_None)
  next
    case (Some a)
    with Suc.prems Suc.IH [OF Suc.prems, of "Suc i" True "unselect a rem" "Suc i'"]
    show ?thesis by simp
  qed
qed

lemma explore_loop:
  "\<forall>i. fst (rnd i) < epsilon \<Longrightarrow> distinct (map arm_videoId rem) \<Longrightarrow>
     length (choose_loop epsilon rnd i k e rem) = min k (length rem)
   \<and> (\<forall>r \<in> set (choose_loop epsilon rnd i k e rem).
         reason r = ''Exploration (random)'' \<and> score r = 0)"
proof (induction k arbitrary: i rem)
  case 0
  then show ?case by simp
next
  case (Suc k)
  show ?case
  proof (cases "rem = []")
    case True
    then show ?thesis by simp
  next
    case False
    let ?a = "rem ! (snd (rnd i) mod length rem)"
    have a_in: "?a \<in> set rem" using False by simp
    have d: "distinct (map arm_videoId (unselect ?a rem))"
      using Suc.prems(2) by (rule unselect_facts(2))
    have len: "Suc (length (unselect ?a rem)) = length rem"
      using Suc.prems(2) a_in by (rule unselect_length)
    from Suc.IH [OF Suc.prems(1) d, of "Suc i"] False Suc.prems(1) len
    show ?thesis by (auto simp: Let_def)
  qed
qed


lemma unselect_ids: "arm_videoId a \<notin> arm_videoId ` set (unselect a rem)"
  by (auto simp: unselect_def)

lemma choose_step:
  assumes "distinct (map arm_videoId rem)" "a \<in> set rem"
    and ih: "length rs = min k (length (unselect a rem))
       \<and> distinct (map videoId rs)
       \<and> set (map videoId rs) \<subseteq> arm_videoId ` set (unselect a rem)"
  shows "length (\<lparr>videoId = arm_videoId a, score = sc, reason = rn\<rparr> # rs) = min (Suc k) (length rem)
       \<and> distinct (map videoId (\<lparr>videoId = arm_videoId a, score = sc, reason = rn\<rparr> # rs))
       \<and> set (map videoId (\<lparr>videoId = arm_videoId a, score = sc, reason = rn\<rparr> # rs))
            \<subseteq> arm_videoId ` set rem"
proof -
  have len: "Suc (length (unselect a rem)) = length rem"
    using assms(1,2) by (rule unselect_length)
  have sub: "set (unselect a rem) \<subseteq> set rem" by (rule unselect_facts(1))
  have new: "arm_videoId a \<notin> set (map videoId rs)"
    using ih unselect_ids [of a rem] by blast
  have c1: "length (\<lparr>videoId = arm_videoId a, score = sc, reason = rn\<rparr> # rs) = min (Suc k) (length rem)"
    using ih len by simp
  have c2: "distinct (map videoId (\<lparr>videoId = arm_videoId a, score = sc, reason = rn\<rparr> # rs))"
    using ih new by simp
  have c3: "set (map videoId (\<lparr>videoId = arm_videoId a, score = sc, reason = rn\<rparr> # rs))
            \<subseteq> arm_videoId ` set rem"
  proof -
    have "arm_videoId ` set (unselect a rem) \<subseteq> arm_videoId ` set rem"
      using sub by (rule image_mono)
    then have "set (map videoId rs) \<subseteq> arm_videoId ` set rem" using ih by blast
    then show ?thesis using assms(2) by simp
  qed
  from c1 c2 c3 show ?thesis by (intro conjI)
qed

lemma choose_loop_length_distinct:
  "distinct (map arm_videoId rem) \<Longrightarrow>
     length (choose_loop epsilon rnd i k e rem) = min k (length rem)
   \<and> distinct (map videoId (choose_loop epsilon rnd i k e rem))
   \<and> set (map videoId (choose_loop epsilon rnd i k e rem)) \<subseteq> arm_videoId ` set rem"
proof (induction k arbitrary: i e rem)
  case 0
  then show ?case by simp
next
  case (Suc k)
  show ?case
  proof (cases "rem = []")
    case True
    then show ?thesis by simp
  next
    case False
    show ?thesis
    proof (cases "fst (rnd i) < epsilon")
      case True
      let ?a = "rem ! (snd (rnd i) mod length rem)"
      have a_in: "?a \<in> set rem" using False by simp
      have d: "distinct (map arm_videoId (unselect ?a rem))"
        using Suc.prems by (rule unselect_facts(2))
      have eq: "choose_loop epsilon rnd i (Suc k) e rem =
          \<lparr>videoId = arm_videoId ?a, score = 0, reason = ''Exploration (random)''\<rparr>
            # choose_loop epsilon rnd (Suc i) k e (unselect ?a rem)"
        using False True by (simp add: Let_def)
      show ?thesis unfolding eq
        using Suc.prems a_in Suc.IH [OF d] by (rule choose_step)
    next
      case no: False
      obtain a where best: "best_arm rem = Some a"
        using False best_arm_None [of rem] by (cases "best_arm rem") auto
      have a_in: "a \<in> set rem" using best by (rule best_arm_in)
      have d: "distinct (map arm_videoId (unselect a rem))"
        using Suc.prems by (rule unselect_facts(2))
      have eq: "choose_loop epsilon rnd i (Suc k) e rem =
          \<lparr>videoId = arm_videoId a, score = averageReward a,
            reason = (if e then ''Exploitation'' else ''Exploitation (best performing)'')\<rparr>
            # choose_loop epsilon rnd (Suc i) k True (unselect a rem)"
        using False no best by simp
      show ?thesis unfolding eq
        using Suc.prems a_in Suc.IH [OF d] by (rule choose_step)
    qed
  qed
qed

text \<open>
  C7. With \<open>\<epsilon> = 0\<close> the result of \<open>chooseCandidates\<close> does not depend on the random source,
  and it lists \<open>min k n\<close> of the \<open>n\<close> arms, each with its average reward as score: every
  listed arm comes before the arms listed after it, and before every arm not listed, in
  the order "higher average reward first, lower videoId first among equals". With
  \<open>\<epsilon> = 1\<close> every entry is an exploration pick.
\<close>

theorem chooseCandidates_epsilon_extremes:
  assumes "distinct (map arm_videoId arms)" and "unit_draws rnd" and "unit_draws rnd'"
  shows "chooseCandidates 0 rnd k arms = chooseCandidates 0 rnd' k arms
     \<and> (\<exists>picked.
           map videoId (chooseCandidates 0 rnd k arms) = map arm_videoId picked
         \<and> map score (chooseCandidates 0 rnd k arms) = map averageReward picked
         \<and> length picked = min k (length arms)
         \<and> set picked \<subseteq> set arms \<and> distinct picked
         \<and> sorted_wrt better picked
         \<and> (\<forall>a \<in> set picked. \<forall>b \<in> set arms - set picked. better a b))
     \<and> length (chooseCandidates 1 rnd k arms) = min k (length arms)
     \<and> (\<forall>r \<in> set (chooseCandidates 1 rnd k arms).
           reason r = ''Exploration (random)'' \<and> score r = 0)"
proof -
  have no: "\<forall>i. \<not> fst (rnd i) < 0" "\<forall>i. \<not> fst (rnd' i) < 0"
    using assms(2,3) by (simp_all add: unit_draws_def not_less)
  have yes: "\<forall>i. fst (rnd i) < 1"
    using assms(2) by (simp add: unit_draws_def)
  have det: "chooseCandidates 0 rnd k arms = chooseCandidates 0 rnd' k arms"
    unfolding chooseCandidates_def using no by (rule exploit_loop_deterministic)
  have top: "map videoId (chooseCandidates 0 rnd k arms) = map arm_videoId (top_arms k arms)
         \<and> map score (chooseCandidates 0 rnd k arms) = map averageReward (top_arms k arms)"
    unfolding chooseCandidates_def using no(1) by (rule exploit_loop)
  have "\<exists>picked.
           map videoId (chooseCandidates 0 rnd k arms) = map arm_videoId picked
         \<and> map score (chooseCandidates 0 rnd k arms) = map averageReward picked
         \<and> length picked = min k (length arms)
         \<and> set picked \<subseteq> set arms \<and> distinct picked
         \<and> sorted_wrt better picked
         \<and> (\<forall>a \<in> set picked. \<forall>b \<in> set arms - set picked. better a b)"
    using top top_arms_props [OF assms(1), of k] by (intro exI [of _ "top_arms k arms"]) simp
  moreover have "length (chooseCandidates 1 rnd k arms) = min k (length arms)
     \<and> (\<forall>r \<in> set (chooseCandidates 1 rnd k arms).
           reason r = ''Exploration (random)'' \<and> score r = 0)"
    unfolding chooseCandidates_def using yes assms(1) by (rule explore_loop)
  ultimately show ?thesis using det by blast
qed

theorem chooseCandidates_epsilon_extremes_witness:
  "map videoId (chooseCandidates 0 demo_draws 2 demo_arms) = [1, 2]
   \<and> map score (chooseCandidates 0 demo_draws 2 demo_arms) = [4 / 5, 1 / 2]
   \<and> map videoId (chooseCandidates 1 demo_draws 2 demo_arms) = [3, 1]
   \<and> map reason (chooseCandidates 1 demo_draws 2 demo_arms)
       = [''Exploration (random)'', ''Exploration (random)'']"
proof -
  have d: "distinct (map arm_videoId demo_arms)" by (simp add: demo_arms_def)
  have u: "unit_draws demo_draws" by (simp add: unit_draws_def demo_draws_def)
  have e0: "map videoId (chooseCandidates 0 demo_draws 2 demo_arms) = [1, 2]"
    by code_simp
  have e1: "map score (chooseCandidates 0 demo_draws 2 demo_arms) = [4 / 5, 1 / 2]"
    by code_simp
  have e2: "map videoId (chooseCandidates 1 demo_draws 2 demo_arms) = [3, 1]"
    by code_simp
  have e3: "map reason (chooseCandidates 1 demo_draws 2 demo_arms)
       = [''Exploration (random)'', ''Exploration (random)'']"
    by code_simp
  from chooseCandidates_epsilon_extremes [OF d u u, of 2] e0 e1 e2 e3
  show ?thesis by (intro conjI)
qed

end
